theory Spec2Isabelle
  imports Complex_Main "HOL-Library.Word"
begin

section \<open>JavaScript values\<close>

text \<open>
  A JavaScript string is a sequence of UTF-16 code units; \<open>length\<close>, \<open>substring\<close>,
  \<open>trim\<close> and the regular expressions of the sources (none has the \<open>u\<close> flag) all
  work on code units. \<open>lit\<close> embeds an ASCII literal of the source.
\<close>

type_synonym jschar = "16 word"
type_synonym jsstring = "jschar list"

definition lit :: "string \<Rightarrow> jsstring" where
  "lit s = map of_char s"

text \<open>
  The characters that \<open>String.prototype.trim\<close> removes and that \<open>\s\<close> matches:
  ECMAScript WhiteSpace and LineTerminator.
\<close>

definition is_js_whitespace :: "jschar \<Rightarrow> bool" where
  "is_js_whitespace c \<longleftrightarrow>
     c = 0x0009 \<or> c = 0x000A \<or> c = 0x000B \<or> c = 0x000C \<or> c = 0x000D \<or> c = 0x0020 \<or>
     c = 0x00A0 \<or> c = 0x1680 \<or> (0x2000 \<le> c \<and> c \<le> 0x200A) \<or> c = 0x2028 \<or>
     c = 0x2029 \<or> c = 0x202F \<or> c = 0x205F \<or> c = 0x3000 \<or> c = 0xFEFF"

definition trim :: "jsstring \<Rightarrow> jsstring" where
  "trim s = rev (dropWhile is_js_whitespace (rev (dropWhile is_js_whitespace s)))"

text \<open>\<open>xs.join(sep)\<close> on an array of strings.\<close>

fun join :: "jsstring \<Rightarrow> jsstring list \<Rightarrow> jsstring" where
  "join sep [] = []"
| "join sep [x] = x"
| "join sep (x # y # ys) = x @ sep @ join sep (y # ys)"

text \<open>\<open>[...new Set(xs)]\<close>: the distinct elements in order of first occurrence.\<close>

definition dedupe :: "'a list \<Rightarrow> 'a list" where
  "dedupe xs = rev (remdups (rev xs))"

text \<open>A thrown JavaScript exception, with its message.\<close>

datatype js_exn = Exn string

section \<open>Message Composer: \<open>generateReminderMessage\<close>\<close>

text \<open>
  The function is in \<^verbatim>\<open>src/backend-endpoint-example.js\<close>, lines 199 to 282; line
  numbers in this section refer to that file.
\<close>

definition is_quote :: "jschar \<Rightarrow> bool" where
  "is_quote c \<longleftrightarrow> c = 0x22 \<or> c = 0x27"

text \<open>
  \<open>message.replace(/^["']|["']$/g, '')\<close>: the global replace removes a quote in first
  position, then (scanning on from behind that match) a quote in last position.
\<close>

definition strip_quotes :: "jsstring \<Rightarrow> jsstring" where
  "strip_quotes m =
     (let m1 = (case m of [] \<Rightarrow> [] | c # cs \<Rightarrow> if is_quote c then cs else m)
      in if m1 \<noteq> [] \<and> is_quote (last m1) then butlast m1 else m1)"

text \<open>Lines 266 to 276: trim, strip quotes, cut to 160 code units.\<close>

definition clean_message :: "jsstring \<Rightarrow> jsstring" where
  "clean_message content =
     (let message = strip_quotes (trim content)
      in if length message > 160 then take 157 message @ lit ''...'' else message)"

text \<open>
  The request to the text generator is a function of the four arguments (the prompt is
  built from them and nothing else); the generator either throws or returns the content
  of the first choice.
\<close>

type_synonym text_generator =
  "jsstring \<Rightarrow> jsstring \<Rightarrow> jsstring \<Rightarrow> jsstring option \<Rightarrow> js_exn + jsstring"

definition generateReminderMessage ::
  "text_generator \<Rightarrow> jsstring \<Rightarrow> jsstring \<Rightarrow> jsstring \<Rightarrow> jsstring option \<Rightarrow> js_exn + jsstring"
where
  "generateReminderMessage openai userName productName urgencyLevel checkoutLink =
     (if userName = [] \<or> productName = []
      then Inl (Exn ''userName and productName are required'')
      else if urgencyLevel \<notin> set [lit ''low'', lit ''medium'', lit ''high'']
      then Inl (Exn ''urgencyLevel must be low, medium, or high'')
      else case openai userName productName urgencyLevel checkoutLink of
             Inl e \<Rightarrow> Inl e
           | Inr content \<Rightarrow> Inr (clean_message content))"

section \<open>Persistence layer\<close>

text \<open>
  The four tables the sources read and write through the Supabase client. Timestamps are
  instants in milliseconds since the epoch (what \<open>new Date(...)\<close> makes of a stored
  value and \<open>toISOString\<close> writes). The tables carry no uniqueness or foreign-key
  constraint of their own: whether the store accepts an operation is decided by a
  \<open>fault\<close> given from outside, one for each call.
\<close>

record user_row =
  u_id :: jsstring
  u_email :: "jsstring option"
  u_full_name :: "jsstring option"

record product_row =
  p_id :: jsstring
  p_name :: jsstring
  p_description :: "jsstring option"
  p_price :: "rat option"
  p_category :: "jsstring option"

record view_row =
  v_id :: jsstring
  v_user_id :: "jsstring option"
  v_product_id :: jsstring
  v_product_name :: jsstring
  v_timestamp :: int

record message_row =
  m_id :: jsstring
  m_user_id :: jsstring
  m_message_type :: jsstring
  m_content :: jsstring
  m_sent_at :: int

record database =
  users :: "user_row list"
  products :: "product_row list"
  products_viewed :: "view_row list"
  messages_sent :: "message_row list"

record pg_error =
  err_code :: string
  err_message :: string

text \<open>
  What happens to one call of the client: it is carried out (\<open>Healthy\<close>), it resolves
  to \<open>{ data: null, error }\<close> (\<open>Fails\<close>), or the awaited promise rejects
  (\<open>Throws\<close>). A call that fails or throws writes nothing.
\<close>

datatype fault = Healthy | Fails pg_error | Throws js_exn

definition supabase_select ::
  "fault \<Rightarrow> 'a list \<Rightarrow> js_exn + ('a list option \<times> pg_error option)" where
  "supabase_select f rows =
     (case f of
        Throws e \<Rightarrow> Inl e
      | Fails err \<Rightarrow> Inr (None, Some err)
      | Healthy \<Rightarrow> Inr (Some rows, None))"

text \<open>\<open>.single()\<close>: exactly one row, or error \<open>PGRST116\<close>.\<close>

definition supabase_single ::
  "fault \<Rightarrow> 'a list \<Rightarrow> js_exn + ('a option \<times> pg_error option)" where
  "supabase_single f rows =
     (case f of
        Throws e \<Rightarrow> Inl e
      | Fails err \<Rightarrow> Inr (None, Some err)
      | Healthy \<Rightarrow>
          (case rows of
             [r] \<Rightarrow> Inr (Some r, None)
           | _ \<Rightarrow> Inr (None, Some \<lparr>err_code = ''PGRST116'', err_message = ''no single row''\<rparr>)))"

text \<open>\<open>.insert(row)\<close>: the table afterwards, the stored row and the error.\<close>

definition supabase_insert ::
  "fault \<Rightarrow> 'a \<Rightarrow> 'a list \<Rightarrow> js_exn + ('a list \<times> 'a option \<times> pg_error option)" where
  "supabase_insert f row table =
     (case f of
        Throws e \<Rightarrow> Inl e
      | Fails err \<Rightarrow> Inr (table, None, Some err)
      | Healthy \<Rightarrow> Inr (table @ [row], Some row, None))"

text \<open>The guard \<open>if (x)\<close> on an optional string: the string when it is truthy.\<close>

definition provided :: "jsstring option \<Rightarrow> jsstring option" where
  "provided v = (case v of None \<Rightarrow> None | Some s \<Rightarrow> if s = [] then None else Some s)"

section \<open>View Recorder: \<open>POST /track-view\<close>\<close>

text \<open>
  The handler is in \<^verbatim>\<open>src/track-view-endpoint.js\<close>, lines 26 to 190; line numbers
  in this section refer to that file.
\<close>

text \<open>
  The fields \<open>product_id\<close> and \<open>product_name\<close> of the JSON body are arbitrary JSON
  values (the handler tests their truthiness and type); \<open>user_email\<close> and
  \<open>timestamp\<close> are taken at the type of the interface, a string or absent.
\<close>

datatype jsval = JUndefined | JNull | JBool bool | JNum rat | JStr jsstring | JObject

record track_request =
  req_user_email :: "jsstring option"
  req_product_id :: jsval
  req_product_name :: jsval
  req_timestamp :: "jsstring option"

definition js_truthy :: "jsval \<Rightarrow> bool" where
  "js_truthy v =
     (case v of
        JUndefined \<Rightarrow> False
      | JNull \<Rightarrow> False
      | JBool b \<Rightarrow> b
      | JNum n \<Rightarrow> n \<noteq> 0
      | JStr s \<Rightarrow> s \<noteq> []
      | JObject \<Rightarrow> True)"

text \<open>\<open>typeof v !== 'string' || v.trim() === ''\<close> fails: the string itself.\<close>

definition nonblank_string :: "jsval \<Rightarrow> jsstring option" where
  "nonblank_string v = (case v of JStr s \<Rightarrow> if trim s = [] then None else Some s | _ \<Rightarrow> None)"

text \<open>
  \<open>/^[^\s@]+@[^\s@]+\.[^\s@]+$/.test(s)\<close>: a non-empty run without whitespace or \<open>@\<close>,
  one \<open>@\<close>, and a run without whitespace or \<open>@\<close> that has a dot which is neither
  its first nor its last character.
\<close>

definition email_char :: "jschar \<Rightarrow> bool" where
  "email_char c \<longleftrightarrow> \<not> is_js_whitespace c \<and> c \<noteq> 0x40"

definition emailRegex_test :: "jsstring \<Rightarrow> bool" where
  "emailRegex_test s =
     (takeWhile email_char s \<noteq> [] \<and>
      (case dropWhile email_char s of
         [] \<Rightarrow> False
       | c # d \<Rightarrow> c = 0x40 \<and> list_all email_char d \<and> 0x2E \<in> set (butlast (tl d))))"

datatype response_body =
    ErrorBody string
  | ErrorDetails string string
  | ErrorMessage string string
  | SuccessBody jsstring "jsstring option" jsstring int

record response =
  resp_status :: nat
  resp_body :: response_body

text \<open>
  What one request meets: the clock, the host's date parser (\<open>None\<close> for an invalid
  date), the fault of each call of the store and the identifiers the store generates.
\<close>

record track_env =
  te_now :: int
  te_parse_date :: "jsstring \<Rightarrow> int option"
  te_find_user :: fault
  te_create_user :: fault
  te_new_user_id :: jsstring
  te_find_product :: fault
  te_create_product :: fault
  te_insert_view :: fault
  te_new_view_id :: jsstring

text \<open>Lines 51 to 61.\<close>

definition validate_timestamp :: "track_env \<Rightarrow> jsstring option \<Rightarrow> int option" where
  "validate_timestamp env timestamp =
     (case provided timestamp of
        None \<Rightarrow> Some (te_now env)
      | Some t \<Rightarrow> te_parse_date env t)"

text \<open>Lines 74 to 107; the \<open>catch\<close> of line 105 leaves \<open>userId\<close> at \<open>null\<close>.\<close>

definition resolve_user :: "track_env \<Rightarrow> database \<Rightarrow> jsstring \<Rightarrow> database \<times> jsstring option" where
  "resolve_user env db user_email =
     (case supabase_single (te_find_user env)
             (map u_id (filter (\<lambda>u. u_email u = Some user_email) (users db))) of
        Inl e \<Rightarrow> (db, None)
      | Inr (existingUser, userQueryError) \<Rightarrow>
          (case existingUser of
             Some uid \<Rightarrow> (db, Some uid)
           | None \<Rightarrow>
               (case supabase_insert (te_create_user env)
                       \<lparr>u_id = te_new_user_id env, u_email = Some user_email, u_full_name = None\<rparr>
                       (users db) of
                  Inl e \<Rightarrow> (db, None)
                | Inr (users', newUser, userCreateError) \<Rightarrow>
                    (case userCreateError of
                       Some err \<Rightarrow> (db\<lparr>users := users'\<rparr>, None)
                     | None \<Rightarrow> (db\<lparr>users := users'\<rparr>, map_option u_id newUser)))))"

text \<open>Lines 111 to 140.\<close>

definition resolve_product :: "track_env \<Rightarrow> database \<Rightarrow> jsstring \<Rightarrow> jsstring \<Rightarrow> database" where
  "resolve_product env db product_id product_name =
     (case supabase_single (te_find_product env)
             (map p_id (filter (\<lambda>p. p_id p = product_id) (products db))) of
        Inl e \<Rightarrow> db
      | Inr (existingProduct, productQueryError) \<Rightarrow>
          (case existingProduct of
             Some pid \<Rightarrow> db
           | None \<Rightarrow>
               (case supabase_insert (te_create_product env)
                       \<lparr>p_id = product_id, p_name = product_name, p_description = None,
                        p_price = None, p_category = None\<rparr>
                       (products db) of
                  Inl e \<Rightarrow> db
                | Inr (products', created, productCreateError) \<Rightarrow> db\<lparr>products := products'\<rparr>)))"

text \<open>Lines 143 to 181, and the \<open>catch\<close> of line 183 for a rejected insert.\<close>

definition insert_view ::
  "track_env \<Rightarrow> database \<Rightarrow> jsstring option \<Rightarrow> jsstring \<Rightarrow> jsstring \<Rightarrow> int \<Rightarrow> database \<times> response"
where
  "insert_view env db userId product_id product_name validatedTimestamp =
     (case supabase_insert (te_insert_view env)
             \<lparr>v_id = te_new_view_id env, v_user_id = userId, v_product_id = product_id,
              v_product_name = product_name, v_timestamp = validatedTimestamp\<rparr>
             (products_viewed db) of
        Inl (Exn msg) \<Rightarrow>
          (db, \<lparr>resp_status = 500, resp_body = ErrorMessage ''Internal server error'' msg\<rparr>)
      | Inr (views', viewRecord, viewError) \<Rightarrow>
          (case viewError of
             Some err \<Rightarrow>
               (db\<lparr>products_viewed := views'\<rparr>,
                \<lparr>resp_status = 500,
                 resp_body = ErrorDetails ''Failed to track product view'' (err_message err)\<rparr>)
           | None \<Rightarrow>
               (case viewRecord of
                  None \<Rightarrow>
                    (db\<lparr>products_viewed := views'\<rparr>,
                     \<lparr>resp_status = 500,
                      resp_body = ErrorMessage ''Internal server error'' ''TypeError''\<rparr>)
                | Some row \<Rightarrow>
                    (db\<lparr>products_viewed := views'\<rparr>,
                     \<lparr>resp_status = 200,
                      resp_body = SuccessBody (v_id row) userId product_id validatedTimestamp\<rparr>))))"

definition bad_request :: "database \<Rightarrow> string \<Rightarrow> database \<times> response" where
  "bad_request db msg = (db, \<lparr>resp_status = 400, resp_body = ErrorBody msg\<rparr>)"

text \<open>The handler of lines 26 to 190, in the order of its checks.\<close>

definition track_view :: "track_env \<Rightarrow> database \<Rightarrow> track_request \<Rightarrow> database \<times> response" where
  "track_view env db req =
     (if \<not> js_truthy (req_product_id req) \<or> \<not> js_truthy (req_product_name req)
      then bad_request db ''Missing required fields: product_id and product_name are required''
      else case nonblank_string (req_product_id req) of
        None \<Rightarrow> bad_request db ''Invalid product_id: must be a non-empty string''
      | Some product_id \<Rightarrow>
      (case nonblank_string (req_product_name req) of
        None \<Rightarrow> bad_request db ''Invalid product_name: must be a non-empty string''
      | Some product_name \<Rightarrow>
      (case validate_timestamp env (req_timestamp req) of
        None \<Rightarrow> bad_request db ''Invalid timestamp format. Use ISO 8601 format''
      | Some validatedTimestamp \<Rightarrow>
      (case provided (req_user_email req) of
        None \<Rightarrow>
          insert_view env (resolve_product env db product_id product_name)
            None product_id product_name validatedTimestamp
      | Some user_email \<Rightarrow>
          if \<not> emailRegex_test user_email then bad_request db ''Invalid email format''
          else (case resolve_user env db user_email of
                  (db1, userId) \<Rightarrow>
                    insert_view env (resolve_product env db1 product_id product_name)
                      userId product_id product_name validatedTimestamp)))))"

section \<open>Abandonment Scanner: \<open>checkAbandonedCarts\<close>\<close>

text \<open>
  The job is in \<^verbatim>\<open>src/unnamed/part_001\<close>, lines 593 to 732; line numbers in this
  section and in the claims about the job refer to that file.
\<close>

text \<open>
  A row of the batch of line 601: a view with the user it refers to embedded
  (\<open>users!inner(email, full_name)\<close>). The inner join drops every view whose
  \<open>user_id\<close> is null or names no user.
\<close>

record joined_user =
  ju_email :: "jsstring option"
  ju_full_name :: "jsstring option"

record joined_view =
  jv_id :: jsstring
  jv_user_id :: jsstring
  jv_product_id :: jsstring
  jv_product_name :: jsstring
  jv_timestamp :: int
  jv_users :: joined_user

definition lookup_user :: "database \<Rightarrow> jsstring \<Rightarrow> user_row option" where
  "lookup_user db uid = find (\<lambda>u. u_id u = uid) (users db)"

definition join_view :: "database \<Rightarrow> view_row \<Rightarrow> joined_view option" where
  "join_view db v =
     (case v_user_id v of
        None \<Rightarrow> None
      | Some uid \<Rightarrow>
          (case lookup_user db uid of
             None \<Rightarrow> None
           | Some u \<Rightarrow>
               Some \<lparr>jv_id = v_id v, jv_user_id = uid, jv_product_id = v_product_id v,
                     jv_product_name = v_product_name v, jv_timestamp = v_timestamp v,
                     jv_users = \<lparr>ju_email = u_email u, ju_full_name = u_full_name u\<rparr>\<rparr>))"

text \<open>
  The rows at or after the cutoff, newest first (rows of equal timestamp come in an
  order the store is free to choose; here the later insert first).
\<close>

definition fetch_recent_views :: "database \<Rightarrow> int \<Rightarrow> joined_view list" where
  "fetch_recent_views db cutoffTime =
     rev (sort_key jv_timestamp
       (List.map_filter (join_view db)
          (filter (\<lambda>v. cutoffTime \<le> v_timestamp v) (products_viewed db))))"

text \<open>
  Lines 627 to 633. \<open>userGroups\<close> is an object keyed by \<open>user_id\<close>;
  \<open>Object.entries\<close> lists string keys in order of insertion (user identifiers are
  UUIDs, never array indices).
\<close>

fun group_insert ::
  "joined_view \<Rightarrow> (jsstring \<times> joined_view list) list \<Rightarrow> (jsstring \<times> joined_view list) list"
where
  "group_insert view [] = [(jv_user_id view, [view])]"
| "group_insert view ((k, vs) # gs) =
     (if k = jv_user_id view then (k, vs @ [view]) # gs else (k, vs) # group_insert view gs)"

definition group_views :: "joined_view list \<Rightarrow> (jsstring \<times> joined_view list) list" where
  "group_views recentViews = foldl (\<lambda>userGroups view. group_insert view userGroups) [] recentViews"

text \<open>What the job writes to the console, and the other effects a run can have.\<close>

datatype log_line =
    Checking
  | FetchError pg_error
  | NoRecentViews
  | FoundViews nat
  | SkipNoEmail jsstring
  | OrdersError jsstring pg_error
  | SkipRecent jsstring
  | Generated jsstring jsstring
  | WouldSend jsstring jsstring
  | LogError jsstring pg_error
  | MessageLogged jsstring
  | UserError jsstring js_exn
  | Summary nat nat
  | TickError js_exn
  | SmsSent jsstring
  | SmsFailed js_exn

datatype event =
    Console log_line
  | Pause nat
  | TwilioCreate jsstring jsstring

record tick_state =
  ts_db :: database
  ts_trace :: "event list"
  processedCount :: nat
  sentCount :: nat

definition say :: "tick_state \<Rightarrow> log_line \<Rightarrow> tick_state" where
  "say st l = st\<lparr>ts_trace := ts_trace st @ [Console l]\<rparr>"

text \<open>
  What one run meets: the clock at each place that reads it, the fault of each call of
  the store, the text generator's answer for each user and the identifiers the store
  generates; \<open>shop_url\<close> is the environment variable \<open>SHOP_URL\<close>, and
  \<open>twilio_client\<close> is the gateway client that line 588 builds for the module
  (\<open>client.messages.create\<close>, from a destination and a body to a receipt or an
  exception). The file reads no switch between a test and a production mode.
\<close>

record tick_env =
  now_start :: int
  views_fault :: fault
  orders_fault :: "jsstring \<Rightarrow> fault"
  now_urgency :: "jsstring \<Rightarrow> int"
  openai :: "jsstring \<Rightarrow> text_generator"
  now_insert :: "jsstring \<Rightarrow> int"
  insert_fault :: "jsstring \<Rightarrow> fault"
  new_message_id :: "jsstring \<Rightarrow> jsstring"
  shop_url :: jsstring
  twilio_client :: "jsstring \<Rightarrow> jsstring \<Rightarrow> js_exn + jsstring"

text \<open>Lines 676 to 683.\<close>

definition oldestView :: "joined_view \<Rightarrow> joined_view list \<Rightarrow> joined_view" where
  "oldestView first rest =
     foldl (\<lambda>oldest view. if jv_timestamp view < jv_timestamp oldest then view else oldest)
       first rest"

definition minutesSinceView :: "int \<Rightarrow> int \<Rightarrow> int" where
  "minutesSinceView now viewed = (now - viewed) div (1000 * 60)"

definition urgency_of :: "int \<Rightarrow> jsstring" where
  "urgency_of minutes =
     (if minutes > 20 then lit ''high'' else if minutes > 15 then lit ''medium'' else lit ''low'')"

definition urgencyLevel :: "int \<Rightarrow> joined_view \<Rightarrow> joined_view list \<Rightarrow> jsstring" where
  "urgencyLevel now first rest =
     urgency_of (minutesSinceView now (jv_timestamp (oldestView first rest)))"

definition checkoutLink :: "jsstring \<Rightarrow> joined_view list \<Rightarrow> jsstring \<Rightarrow> jsstring" where
  "checkoutLink shop views userId =
     shop @ lit ''/checkout?products='' @ join (lit '','') (dedupe (map jv_product_id views))
       @ lit ''&user='' @ userId"

definition sms_row :: "tick_env \<Rightarrow> jsstring \<Rightarrow> jsstring \<Rightarrow> message_row" where
  "sms_row env userId message =
     \<lparr>m_id = new_message_id env userId, m_user_id = userId, m_message_type = lit ''sms'',
      m_content = message, m_sent_at = now_insert env userId\<rparr>"

text \<open>
  Lines 671 to 692: the checkout link, the urgency, the product names and the call of
  the Message Composer for one user.
\<close>

definition reminder_text ::
  "tick_env \<Rightarrow> jsstring \<Rightarrow> jsstring \<Rightarrow> joined_view \<Rightarrow> joined_view list \<Rightarrow> js_exn + jsstring"
where
  "reminder_text env userId email first rest =
     (let views = first # rest;
          link = checkoutLink (shop_url env) views userId;
          level = urgencyLevel (now_urgency env userId) first rest;
          productNames = join (lit '', '') (dedupe (map jv_product_name views));
          userName = (case provided (ju_full_name (jv_users first)) of
                        Some full_name \<Rightarrow> full_name
                      | None \<Rightarrow> takeWhile (\<lambda>c. c \<noteq> 0x40) email)
      in generateReminderMessage (openai env userId) userName productNames level (Some link))"

text \<open>
  The body of the \<open>try\<close> of line 640 from \<open>processedCount++\<close> on: the state it
  leaves and the exception it ends with, if any.
\<close>

definition send_reminder ::
  "tick_env \<Rightarrow> tick_state \<Rightarrow> jsstring \<Rightarrow> jsstring \<Rightarrow> joined_view \<Rightarrow> joined_view list
     \<Rightarrow> tick_state \<times> js_exn option"
where
  "send_reminder env st userId email first rest =
     (case reminder_text env userId email first rest of
        Inl e \<Rightarrow> (st, Some e)
      | Inr message \<Rightarrow>
          (let st1 = say (say st (Generated email message)) (WouldSend email message)
           in case supabase_insert (insert_fault env userId) (sms_row env userId message)
                     (messages_sent (ts_db st1)) of
                Inl e \<Rightarrow> (st1, Some e)
              | Inr (messages', messageRecord, messageError) \<Rightarrow>
                  (let st2 = st1\<lparr>ts_db := (ts_db st1)\<lparr>messages_sent := messages'\<rparr>\<rparr>;
                       st3 = (case messageError of
                                Some err \<Rightarrow> say st2 (LogError userId err)
                              | None \<Rightarrow>
                                  say (st2\<lparr>sentCount := sentCount st2 + 1\<rparr>)
                                    (MessageLogged email))
                   in (st3\<lparr>ts_trace := ts_trace st3 @ [Pause 1000]\<rparr>, None))))"

definition recent_sms :: "database \<Rightarrow> jsstring \<Rightarrow> int \<Rightarrow> message_row list" where
  "recent_sms db userId cutoffTime =
     filter (\<lambda>m. m_user_id m = userId \<and> m_message_type m = lit ''sms'' \<and> cutoffTime \<le> m_sent_at m)
       (messages_sent db)"

text \<open>The body of the \<open>try\<close> of line 640, for one entry of \<open>userGroups\<close>.\<close>

definition process_user_try ::
  "tick_env \<Rightarrow> int \<Rightarrow> tick_state \<Rightarrow> jsstring \<times> joined_view list \<Rightarrow> tick_state \<times> js_exn option"
where
  "process_user_try env cutoffTime st g =
     (case g of (userId, views) \<Rightarrow>
       (case views of
          [] \<Rightarrow> (st, Some (Exn ''TypeError''))
        | first # rest \<Rightarrow>
            (case provided (ju_email (jv_users first)) of
               None \<Rightarrow> (say st (SkipNoEmail userId), None)
             | Some email \<Rightarrow>
                 (case supabase_select (orders_fault env userId)
                         (map m_id (recent_sms (ts_db st) userId cutoffTime)) of
                    Inl e \<Rightarrow> (st, Some e)
                  | Inr (recentOrders, ordersError) \<Rightarrow>
                      (case ordersError of
                         Some err \<Rightarrow> (say st (OrdersError userId err), None)
                       | None \<Rightarrow>
                           if (case recentOrders of None \<Rightarrow> False | Some rows \<Rightarrow> rows \<noteq> [])
                           then (say st (SkipRecent email), None)
                           else send_reminder env (st\<lparr>processedCount := processedCount st + 1\<rparr>)
                                  userId email first rest)))))"

text \<open>One turn of the loop of line 639: the \<open>try\<close> and the \<open>catch\<close> of line 722.\<close>

definition process_user ::
  "tick_env \<Rightarrow> int \<Rightarrow> tick_state \<Rightarrow> jsstring \<times> joined_view list \<Rightarrow> tick_state" where
  "process_user env cutoffTime st g =
     (case process_user_try env cutoffTime st g of
        (st', None) \<Rightarrow> st'
      | (st', Some e) \<Rightarrow> say st' (UserError (fst g) e))"

text \<open>The body of the outer \<open>try\<close>, lines 594 to 727.\<close>

definition tick_try :: "tick_env \<Rightarrow> database \<Rightarrow> tick_state \<times> js_exn option" where
  "tick_try env db =
     (let st0 = \<lparr>ts_db = db, ts_trace = [Console Checking], processedCount = 0, sentCount = 0\<rparr>;
          cutoffTime = now_start env - 30 * 60 * 1000
      in case supabase_select (views_fault env) (fetch_recent_views db cutoffTime) of
           Inl e \<Rightarrow> (st0, Some e)
         | Inr (recentViews, viewsError) \<Rightarrow>
             (case viewsError of
                Some err \<Rightarrow> (say st0 (FetchError err), None)
              | None \<Rightarrow>
                  (case recentViews of
                     None \<Rightarrow> (say st0 NoRecentViews, None)
                   | Some [] \<Rightarrow> (say st0 NoRecentViews, None)
                   | Some (v # vs) \<Rightarrow>
                       (let st1 = say st0 (FoundViews (length (v # vs)));
                            st2 = foldl (process_user env cutoffTime) st1 (group_views (v # vs))
                        in (say st2 (Summary (processedCount st2) (sentCount st2)), None)))))"

text \<open>
  The whole function: the state it leaves, and the exception that reaches its caller,
  if any. The \<open>catch\<close> of line 729 logs whatever the body throws.
\<close>

definition checkAbandonedCarts :: "tick_env \<Rightarrow> database \<Rightarrow> tick_state \<times> js_exn option" where
  "checkAbandonedCarts env db =
     (case tick_try env db of
        (st, None) \<Rightarrow> (st, None)
      | (st, Some e) \<Rightarrow> (say st (TickError e), None))"


section \<open>Quantities the properties speak of\<close>

text \<open>The age of a view in minutes, as a fraction.\<close>

definition ageMinutes :: "int \<Rightarrow> int \<Rightarrow> rat" where
  "ageMinutes now viewed = of_int (now - viewed) / 60000"


text \<open>
  The lines of a trace that report a reminder: the text generated (line 694), the send
  logged in its place (line 698) and the record written (line 715).
\<close>

fun is_reminder_line :: "event \<Rightarrow> bool" where
  "is_reminder_line (Console (Generated email message)) = True"
| "is_reminder_line (Console (WouldSend email message)) = True"
| "is_reminder_line (Console (MessageLogged email)) = True"
| "is_reminder_line _ = False"

definition reminder_lines :: "event list \<Rightarrow> event list" where
  "reminder_lines trace = filter is_reminder_line trace"

text \<open>The reminders on record for one user.\<close>

definition messages_of :: "jsstring \<Rightarrow> database \<Rightarrow> message_row list" where
  "messages_of userId db = filter (\<lambda>m. m_user_id m = userId) (messages_sent db)"

text \<open>The cutoff of a run: thirty minutes before its start.\<close>

definition cutoff_of :: "tick_env \<Rightarrow> int" where
  "cutoff_of env = now_start env - 30 * 60 * 1000"

text \<open>The entries of \<open>userGroups\<close> of a run on a database.\<close>

definition user_groups :: "tick_env \<Rightarrow> database \<Rightarrow> (jsstring \<times> joined_view list) list" where
  "user_groups env db = group_views (fetch_recent_views db (cutoff_of env))"

text \<open>
  The rows that one turn of the loop adds to \<open>messages_sent\<close>, as a function of the
  database at the start of the run.
\<close>

definition rows_due ::
  "tick_env \<Rightarrow> int \<Rightarrow> database \<Rightarrow> jsstring \<times> joined_view list \<Rightarrow> message_row list" where
  "rows_due env cutoffTime db g =
     (case g of (userId, views) \<Rightarrow>
       (case views of
          [] \<Rightarrow> []
        | first # rest \<Rightarrow>
            (case provided (ju_email (jv_users first)) of
               None \<Rightarrow> []
             | Some email \<Rightarrow>
                 if orders_fault env userId = Healthy \<and> recent_sms db userId cutoffTime = []
                    \<and> insert_fault env userId = Healthy
                 then (case reminder_text env userId email first rest of
                         Inl e \<Rightarrow> []
                       | Inr message \<Rightarrow> [sms_row env userId message])
                 else [])))"

text \<open>Every group is non-empty and holds views of its own user, taken from the batch.\<close>

definition groups_of :: "joined_view list \<Rightarrow> (jsstring \<times> joined_view list) list \<Rightarrow> bool" where
  "groups_of batch gs =
     list_all (\<lambda>g. snd g \<noteq> [] \<and> list_all (\<lambda>v. v \<in> set batch \<and> jv_user_id v = fst g) (snd g)) gs"

text \<open>What one turn of the loop writes to the trace, in the same way.\<close>

definition user_lines ::
  "tick_env \<Rightarrow> int \<Rightarrow> database \<Rightarrow> jsstring \<times> joined_view list \<Rightarrow> event list" where
  "user_lines env cutoffTime db g =
     (case g of (userId, views) \<Rightarrow>
       (case views of
          [] \<Rightarrow> [Console (UserError userId (Exn ''TypeError''))]
        | first # rest \<Rightarrow>
            (case provided (ju_email (jv_users first)) of
               None \<Rightarrow> [Console (SkipNoEmail userId)]
             | Some email \<Rightarrow>
                 (case orders_fault env userId of
                    Throws e \<Rightarrow> [Console (UserError userId e)]
                  | Fails err \<Rightarrow> [Console (OrdersError userId err)]
                  | Healthy \<Rightarrow>
                      if recent_sms db userId cutoffTime \<noteq> [] then [Console (SkipRecent email)]
                      else (case reminder_text env userId email first rest of
                              Inl e \<Rightarrow> [Console (UserError userId e)]
                            | Inr message \<Rightarrow>
                                [Console (Generated email message),
                                 Console (WouldSend email message)] @
                                (case insert_fault env userId of
                                   Healthy \<Rightarrow> [Console (MessageLogged email), Pause 1000]
                                 | Fails err \<Rightarrow> [Console (LogError userId err), Pause 1000]
                                 | Throws e \<Rightarrow> [Console (UserError userId e)]))))))"

text \<open>
  A view has a deliverable user when its user reference resolves to a user with an
  email.
\<close>

definition user_has_email :: "database \<Rightarrow> jsstring \<Rightarrow> bool" where
  "user_has_email db userId =
     (case lookup_user db userId of None \<Rightarrow> False | Some usr \<Rightarrow> provided (u_email usr) \<noteq> None)"

definition has_deliverable_user :: "database \<Rightarrow> view_row \<Rightarrow> bool" where
  "has_deliverable_user db v =
     (case v_user_id v of None \<Rightarrow> False | Some userId \<Rightarrow> user_has_email db userId)"

section \<open>Sample data for the worked examples\<close>

definition empty_database :: database where
  "empty_database = \<lparr>users = [], products = [], products_viewed = [], messages_sent = []\<rparr>"

text \<open>A request environment in which every call of the store is carried out.\<close>

definition sample_track_env :: track_env where
  "sample_track_env =
     \<lparr>te_now = 1000, te_parse_date = (\<lambda>t. None), te_find_user = Healthy,
      te_create_user = Healthy, te_new_user_id = lit ''u1'', te_find_product = Healthy,
      te_create_product = Healthy, te_insert_view = Healthy, te_new_view_id = lit ''v1''\<rparr>"

definition sample_request :: "jsstring option \<Rightarrow> track_request" where
  "sample_request user_email =
     \<lparr>req_user_email = user_email, req_product_id = JStr (lit ''p1''),
      req_product_name = JStr (lit ''Widget''), req_timestamp = None\<rparr>"

text \<open>
  A request environment in which the user lookup throws and both product calls are
  refused.
\<close>

definition faulty_track_env :: track_env where
  "faulty_track_env =
     sample_track_env
       \<lparr>te_find_user := Throws (Exn ''fetch failed''),
        te_find_product := Fails \<lparr>err_code = ''57014'', err_message = ''timeout''\<rparr>,
        te_create_product := Fails \<lparr>err_code = ''42501'', err_message = ''denied''\<rparr>\<rparr>"

text \<open>A request environment in which the store refuses to create a user.\<close>

definition refusing_user_env :: track_env where
  "refusing_user_env =
     sample_track_env
       \<lparr>te_create_user := Fails \<lparr>err_code = ''42501'', err_message = ''denied''\<rparr>\<rparr>"

text \<open>A second request for the same product under another name.\<close>

definition second_request :: track_request where
  "second_request = (sample_request None)\<lparr>req_product_name := JStr (lit ''Gadget'')\<rparr>"

definition second_track_env :: track_env where
  "second_track_env = sample_track_env\<lparr>te_now := 2000, te_new_view_id := lit ''v2''\<rparr>"

text \<open>
  Three users, of whom the second has no email and the third was reminded five minutes
  before the run; five views, of which the fourth is anonymous.
\<close>

definition sample_database :: database where
  "sample_database =
     \<lparr>users =
        [\<lparr>u_id = lit ''u1'', u_email = Some (lit ''a@x.com''), u_full_name = None\<rparr>,
         \<lparr>u_id = lit ''u2'', u_email = None, u_full_name = Some (lit ''Nomail'')\<rparr>,
         \<lparr>u_id = lit ''u3'', u_email = Some (lit ''b@x.com''), u_full_name = Some (lit ''Bob'')\<rparr>],
      products = [],
      products_viewed =
        [\<lparr>v_id = lit ''v1'', v_user_id = Some (lit ''u1''), v_product_id = lit ''p1'',
          v_product_name = lit ''Widget'', v_timestamp = 0\<rparr>,
         \<lparr>v_id = lit ''v2'', v_user_id = Some (lit ''u1''), v_product_id = lit ''p2'',
          v_product_name = lit ''Gadget'', v_timestamp = 120000\<rparr>,
         \<lparr>v_id = lit ''v3'', v_user_id = Some (lit ''u2''), v_product_id = lit ''p1'',
          v_product_name = lit ''Widget'', v_timestamp = 1000000\<rparr>,
         \<lparr>v_id = lit ''v4'', v_user_id = None, v_product_id = lit ''p1'',
          v_product_name = lit ''Widget'', v_timestamp = 1100000\<rparr>,
         \<lparr>v_id = lit ''v5'', v_user_id = Some (lit ''u3''), v_product_id = lit ''p1'',
          v_product_name = lit ''Widget'', v_timestamp = 1500000\<rparr>],
      messages_sent =
        [\<lparr>m_id = lit ''m0'', m_user_id = lit ''u3'', m_message_type = lit ''sms'',
          m_content = lit ''Hello'', m_sent_at = 1500000\<rparr>]\<rparr>"

text \<open>
  A run that starts thirty minutes after the first view and meets no fault; its gateway
  accepts every message.
\<close>

definition sample_tick_env :: tick_env where
  "sample_tick_env =
     \<lparr>now_start = 1800000, views_fault = Healthy, orders_fault = (\<lambda>u. Healthy),
      now_urgency = (\<lambda>u. 1800500), openai = (\<lambda>u n p l k. Inr (lit ''Hi'')),
      now_insert = (\<lambda>u. 1801000), insert_fault = (\<lambda>u. Healthy),
      new_message_id = (\<lambda>u. lit ''m1''), shop_url = lit ''https://shop.example'',
      twilio_client = (\<lambda>phoneNumber message. Inr (lit ''SM1''))\<rparr>"

text \<open>The same run with a store that refuses every insert into \<open>messages_sent\<close>.\<close>

definition refusing_tick_env :: tick_env where
  "refusing_tick_env =
     sample_tick_env
       \<lparr>insert_fault := (\<lambda>u. Fails \<lparr>err_code = ''42501'', err_message = ''denied''\<rparr>)\<rparr>"

text \<open>The same run with a reminder lookup that throws for the third user.\<close>

definition failing_tick_env :: tick_env where
  "failing_tick_env =
     sample_tick_env
       \<lparr>orders_fault := (\<lambda>u. if u = lit ''u3'' then Throws (Exn ''fetch failed'') else Healthy)\<rparr>"

section \<open>Properties of the Message Composer\<close>

lemma length_strip_quotes: "length (strip_quotes m) \<le> length m"
  by (cases m) (auto simp: strip_quotes_def Let_def)

lemma length_clean_message: "length (clean_message content) \<le> 160"
  by (simp add: clean_message_def Let_def lit_def)

lemma strip_quotes_char:
  "strip_quotes t =
     (let a = (if t \<noteq> [] \<and> is_quote (hd t) then 1 else 0);
          b = (if length t > a \<and> is_quote (last t) then 1 else 0)
      in drop a (take (length t - b) t))"
proof (cases t)
  case Nil
  then show ?thesis by (simp add: strip_quotes_def)
next
  case (Cons c cs)
  show ?thesis
  proof (cases cs rule: rev_cases)
    case Nil
    with Cons show ?thesis by (simp add: strip_quotes_def)
  next
    case (snoc ds d)
    with Cons show ?thesis by (simp add: strip_quotes_def butlast_append)
  qed
qed

text \<open>
  Claim C8. Whenever the text generator returns a string (for arguments that pass the
  Composer's own validation), the Composer returns a message of at most 160 code units:
  the trimmed content, without one quote character in first position and one in last
  position, and, when that is longer than 160, its first 157 code units followed by
  three dots.
\<close>

theorem composer_output_bounded:
  assumes "userName \<noteq> []" and "productName \<noteq> []"
    and "level \<in> {lit ''low'', lit ''medium'', lit ''high''}"
    and "generator userName productName level link = Inr content"
  shows "\<exists>message. generateReminderMessage generator userName productName level link = Inr message
           \<and> length message \<le> 160
           \<and> (let t = trim content;
                   a = (if t \<noteq> [] \<and> is_quote (hd t) then 1 else 0);
                   b = (if length t > a \<and> is_quote (last t) then 1 else 0);
                   m = drop a (take (length t - b) t)
               in message = (if length m > 160 then take 157 m @ lit ''...'' else m))"
proof -
  have run: "generateReminderMessage generator userName productName level link
      = Inr (clean_message content)"
    using assms by (auto simp: generateReminderMessage_def)
  have shape: "clean_message content =
      (let m = strip_quotes (trim content)
       in if length m > 160 then take 157 m @ lit ''...'' else m)"
    by (simp add: clean_message_def)
  show ?thesis
    unfolding run using length_clean_message [of content]
    by (simp add: shape strip_quotes_char [of "trim content"] Let_def)
qed

text \<open>
  A generator that answers with a space, a double quote, two hundred letters, a single
  quote and a line feed: the message is the first 157 letters and three dots.
\<close>

theorem composer_output_bounded_witness:
  "\<exists>message.
     generateReminderMessage (\<lambda>n p l k. Inr ([0x20, 0x22] @ replicate 200 0x61 @ [0x27, 0x0A]))
       (lit ''Sarah'') (lit ''Widget'') (lit ''low'') None = Inr message
     \<and> length message = 160
     \<and> message = replicate 157 0x61 @ lit ''...''"
proof -
  let ?g = "\<lambda>n p l k. Inr ([0x20, 0x22] @ replicate 200 0x61 @ [0x27, 0x0A :: jschar])
              :: js_exn + jsstring"
  have t: "trim ([0x20, 0x22] @ replicate 200 0x61 @ [0x27, 0x0A])
      = [0x22] @ replicate 200 0x61 @ [0x27]"
    by (simp add: trim_def is_js_whitespace_def dropWhile_append3)
  have "\<exists>message. generateReminderMessage ?g (lit ''Sarah'') (lit ''Widget'') (lit ''low'') None
            = Inr message \<and> length message \<le> 160
           \<and> (let t = trim ([0x20, 0x22] @ replicate 200 0x61 @ [0x27, 0x0A]);
                   a = (if t \<noteq> [] \<and> is_quote (hd t) then 1 else 0);
                   b = (if length t > a \<and> is_quote (last t) then 1 else 0);
                   m = drop a (take (length t - b) t)
               in message = (if length m > 160 then take 157 m @ lit ''...'' else m))"
    by (rule composer_output_bounded) (simp_all add: lit_def)
  then show ?thesis
    unfolding t by (simp add: is_quote_def Let_def lit_def)
qed

section \<open>Urgency\<close>

lemma minutesSinceView_floor: "minutesSinceView now viewed = \<lfloor>ageMinutes now viewed\<rfloor>"
  unfolding minutesSinceView_def ageMinutes_def
  using floor_divide_of_int_eq [of "now - viewed" 60000, where ?'a = rat] by simp

lemma oldestView_fold:
  "jv_timestamp (oldestView first rest) = fold min (map jv_timestamp rest) (jv_timestamp first)"
proof (induction rest arbitrary: first)
  case Nil
  show ?case by (simp add: oldestView_def)
next
  case (Cons v rest)
  have step: "oldestView first (v # rest) =
      oldestView (if jv_timestamp v < jv_timestamp first then v else first) rest"
    by (simp add: oldestView_def)
  show ?case
    unfolding step by (simp add: Cons.IH min_def)
qed

lemma oldestView_Min:
  "jv_timestamp (oldestView first rest) = Min (set (map jv_timestamp (first # rest)))"
  using Min.set_eq_fold [of "jv_timestamp first" "map jv_timestamp rest"]
  by (simp add: oldestView_fold)

lemma whole_minutes:
  "\<lfloor>(840000::rat) / 60000\<rfloor> = 14" "\<lfloor>(900000::rat) / 60000\<rfloor> = 15"
  "\<lfloor>(900600::rat) / 60000\<rfloor> = 15" "\<lfloor>(1200000::rat) / 60000\<rfloor> = 20"
  "\<lfloor>(1200600::rat) / 60000\<rfloor> = 20" "\<lfloor>(1260000::rat) / 60000\<rfloor> = 21"
  by (simp_all add: floor_eq_iff)

text \<open>
  Claim C1, as stated, fails: a group whose only view is 900600 ms old has an age of
  15.01 minutes, inside the medium band of the claim, and the job computes low.
\<close>

theorem urgency_fraction_counterexample:
  "ageMinutes 900600 0 = 1501 / 100
   \<and> 15 < ageMinutes 900600 0 \<and> ageMinutes 900600 0 \<le> 20
   \<and> urgencyLevel 900600
        \<lparr>jv_id = lit ''v1'', jv_user_id = lit ''u1'', jv_product_id = lit ''p1'',
         jv_product_name = lit ''Widget'', jv_timestamp = 0,
         jv_users = \<lparr>ju_email = Some (lit ''a@x.com''), ju_full_name = None\<rparr>\<rparr> []
       = lit ''low''
   \<and> lit ''low'' \<noteq> lit ''medium''"
  by (simp add: ageMinutes_def urgencyLevel_def oldestView_def minutesSinceView_def
        urgency_of_def lit_def)

text \<open>
  Claim C1, amended. The tier of a group is decided by the whole minutes elapsed since
  its oldest view, the age rounded down: high when that is more than 20, medium when it
  is more than 15 and at most 20, low when it is at most 15. This tier, computed at the
  clock reading of line 679, is the one the run passes to the Message Composer for the
  group.
\<close>

theorem urgency_by_whole_minutes:
  "urgencyLevel now first rest =
     (let age = \<lfloor>ageMinutes now (Min (set (map jv_timestamp (first # rest))))\<rfloor>
      in if age > 20 then lit ''high'' else if age > 15 then lit ''medium'' else lit ''low'')
   \<and> reminder_text env userId email first rest =
       generateReminderMessage (openai env userId)
         (case provided (ju_full_name (jv_users first)) of
            Some full_name \<Rightarrow> full_name
          | None \<Rightarrow> takeWhile (\<lambda>c. c \<noteq> 0x40) email)
         (join (lit '', '') (dedupe (map jv_product_name (first # rest))))
         (urgencyLevel (now_urgency env userId) first rest)
         (Some (checkoutLink (shop_url env) (first # rest) userId))"
proof -
  have "urgencyLevel now first rest =
     (let age = \<lfloor>ageMinutes now (Min (set (map jv_timestamp (first # rest))))\<rfloor>
      in if age > 20 then lit ''high'' else if age > 15 then lit ''medium'' else lit ''low'')"
    unfolding urgencyLevel_def oldestView_Min minutesSinceView_floor
    by (simp add: urgency_of_def Let_def)
  then show ?thesis
    by (simp add: reminder_text_def Let_def)
qed

text \<open>
  Ages of 14, 15, 15.01, 20, 20.01 and 21 minutes, for a group of two views of which
  the older was seen at instant 0.
\<close>

theorem urgency_by_whole_minutes_witness:
  "map (\<lambda>now. urgencyLevel now
          \<lparr>jv_id = lit ''v2'', jv_user_id = lit ''u1'', jv_product_id = lit ''p2'',
           jv_product_name = lit ''Gadget'', jv_timestamp = 120000,
           jv_users = \<lparr>ju_email = Some (lit ''a@x.com''), ju_full_name = None\<rparr>\<rparr>
          [\<lparr>jv_id = lit ''v1'', jv_user_id = lit ''u1'', jv_product_id = lit ''p1'',
            jv_product_name = lit ''Widget'', jv_timestamp = 0,
            jv_users = \<lparr>ju_email = Some (lit ''a@x.com''), ju_full_name = None\<rparr>\<rparr>])
       [840000, 900000, 900600, 1200000, 1200600, 1260000]
   = [lit ''low'', lit ''low'', lit ''low'', lit ''medium'', lit ''medium'', lit ''high'']"
  using urgency_by_whole_minutes
  by (simp add: ageMinutes_def whole_minutes)

section \<open>View Recorder\<close>

lemma trim_Nil [simp]: "trim [] = []"
  by (simp add: trim_def)

lemma nonblank_string_Some:
  "nonblank_string v = Some s \<longleftrightarrow> v = JStr s \<and> trim s \<noteq> []"
  by (cases v) (auto simp: nonblank_string_def)

lemma nonblank_truthy: "nonblank_string v = Some s \<Longrightarrow> js_truthy v"
  by (auto simp: nonblank_string_Some js_truthy_def)

lemma not_truthy_not_string: "\<not> js_truthy v \<Longrightarrow> nonblank_string v = None"
  by (cases v) (auto simp: nonblank_string_def js_truthy_def)

lemma resolve_user_frame:
  "resolve_user env db e = (db1, uid) \<Longrightarrow>
     products db1 = products db \<and> products_viewed db1 = products_viewed db
     \<and> messages_sent db1 = messages_sent db"
  by (auto simp: resolve_user_def supabase_single_def supabase_insert_def
      split: sum.splits option.splits fault.splits list.splits prod.splits)

lemma resolve_product_frame:
  "users (resolve_product env db pid pname) = users db
   \<and> products_viewed (resolve_product env db pid pname) = products_viewed db
   \<and> messages_sent (resolve_product env db pid pname) = messages_sent db"
  by (auto simp: resolve_product_def supabase_single_def supabase_insert_def
      split: sum.splits option.splits fault.splits list.splits prod.splits)

lemma track_view_valid:
  assumes "req_product_id req = JStr pid" and "trim pid \<noteq> []"
    and "req_product_name req = JStr pname" and "trim pname \<noteq> []"
    and "validate_timestamp env (req_timestamp req) = Some ts"
    and "\<forall>e. provided (req_user_email req) = Some e \<longrightarrow> emailRegex_test e"
  shows "track_view env db req =
     (case provided (req_user_email req) of
        None \<Rightarrow> insert_view env (resolve_product env db pid pname) None pid pname ts
      | Some e \<Rightarrow>
          (case resolve_user env db e of
             (db1, uid) \<Rightarrow> insert_view env (resolve_product env db1 pid pname) uid pid pname ts))"
proof -
  have a: "nonblank_string (req_product_id req) = Some pid"
    and b: "nonblank_string (req_product_name req) = Some pname"
    using assms by (simp_all add: nonblank_string_Some)
  have c: "js_truthy (req_product_id req)" "js_truthy (req_product_name req)"
    using a b by (simp_all add: nonblank_truthy)
  show ?thesis
    using assms(5,6) by (simp add: track_view_def a b c split: option.splits)
qed

text \<open>
  The test accepts exactly the strings of the pattern: three non-empty runs of
  characters other than white space and \<open>@\<close>, the first two separated by \<open>@\<close>
  and the last two by a dot.
\<close>

lemma email_char_marks: "\<not> email_char 0x40" "email_char 0x2E"
  by (simp_all add: email_char_def is_js_whitespace_def)

lemma emailRegex_test_iff:
  "emailRegex_test s \<longleftrightarrow>
     (\<exists>a b c. s = a @ [0x40] @ b @ [0x2E] @ c \<and> a \<noteq> [] \<and> b \<noteq> [] \<and> c \<noteq> []
        \<and> list_all email_char (a @ b @ c))"
proof
  assume t: "emailRegex_test s"
  let ?a = "takeWhile email_char s"
  from t have a: "?a \<noteq> []"
    by (simp add: emailRegex_test_def)
  from t obtain d where r: "dropWhile email_char s = 0x40 # d"
    and d: "list_all email_char d" and dot: "0x2E \<in> set (butlast (tl d))"
    by (auto simp: emailRegex_test_def split: list.splits)
  from dot obtain x t' where dx: "d = x # t'" and dot': "0x2E \<in> set (butlast t')"
    by (cases d) auto
  from dot' obtain u y where t': "t' = u @ [y]" and dot'': "0x2E \<in> set u"
    by (cases t' rule: rev_cases) auto
  from dot'' obtain p q where u: "u = p @ 0x2E # q"
    by (auto dest: split_list)
  have s: "s = ?a @ [0x40] @ (x # p) @ [0x2E] @ (q @ [y])"
    using takeWhile_dropWhile_id [of email_char s] r dx t' u by simp
  have "list_all email_char ?a"
    by (auto simp: list_all_iff dest: set_takeWhileD)
  moreover have "list_all email_char ((x # p) @ (q @ [y]))"
    using d dx t' u by simp
  ultimately have all: "list_all email_char (?a @ (x # p) @ (q @ [y]))"
    by simp
  show "\<exists>a b c. s = a @ [0x40] @ b @ [0x2E] @ c \<and> a \<noteq> [] \<and> b \<noteq> [] \<and> c \<noteq> []
        \<and> list_all email_char (a @ b @ c)"
    by (rule exI [of _ ?a], rule exI [of _ "x # p"], rule exI [of _ "q @ [y]"])
       (use s a all in blast)
next
  assume "\<exists>a b c. s = a @ [0x40] @ b @ [0x2E] @ c \<and> a \<noteq> [] \<and> b \<noteq> [] \<and> c \<noteq> []
        \<and> list_all email_char (a @ b @ c)"
  then obtain a b c where s: "s = a @ 0x40 # (b @ 0x2E # c)" and ne: "a \<noteq> []" "b \<noteq> []" "c \<noteq> []"
    and all: "\<forall>x \<in> set a. email_char x" "list_all email_char b" "list_all email_char c"
    by (auto simp: list_all_iff)
  have tw: "takeWhile email_char s = a"
    unfolding s using all(1) email_char_marks(1) by (simp add: takeWhile_tail)
  have dw: "dropWhile email_char s = 0x40 # (b @ 0x2E # c)"
    unfolding s using all(1) email_char_marks(1) by (simp add: dropWhile_append2)
  obtain b0 bs where b: "b = b0 # bs" using ne(2) by (cases b) auto
  obtain cs c0 where c: "c = cs @ [c0]" using ne(3) by (cases c rule: rev_cases) auto
  have "butlast (tl (b @ 0x2E # c)) = bs @ 0x2E # cs"
    by (simp add: b c butlast_append)
  then have dot: "0x2E \<in> set (butlast (tl (b @ 0x2E # c)))"
    by simp
  show "emailRegex_test s"
    unfolding emailRegex_test_def tw dw using ne(1) all(2,3) dot email_char_marks(2)
    by simp
qed

lemma sample_strings:
  "trim (lit ''p1'') = lit ''p1''" "trim (lit ''Widget'') = lit ''Widget''"
  "lit ''p1'' \<noteq> []" "lit ''Widget'' \<noteq> []"
  by (simp_all add: trim_def lit_def is_js_whitespace_def)

text \<open>
  Claim C5, as stated, fails: a request whose \<open>user_email\<close> is present and is the
  empty string, which is no address, is answered with 200 and its view is stored
  without a user.
\<close>

theorem empty_email_counterexample:
  "req_user_email (sample_request (Some [])) = Some []
   \<and> \<not> emailRegex_test []
   \<and> track_view sample_track_env empty_database (sample_request (Some [])) =
       (\<lparr>users = [],
         products = [\<lparr>p_id = lit ''p1'', p_name = lit ''Widget'', p_description = None,
                      p_price = None, p_category = None\<rparr>],
         products_viewed = [\<lparr>v_id = lit ''v1'', v_user_id = None, v_product_id = lit ''p1'',
                             v_product_name = lit ''Widget'', v_timestamp = 1000\<rparr>],
         messages_sent = []\<rparr>,
        \<lparr>resp_status = 200,
         resp_body = SuccessBody (lit ''v1'') None (lit ''p1'') 1000\<rparr>)"
  by (simp add: sample_request_def sample_track_env_def empty_database_def emailRegex_test_def
        track_view_def js_truthy_def nonblank_string_def sample_strings validate_timestamp_def
        provided_def resolve_product_def supabase_single_def supabase_insert_def insert_view_def)

text \<open>
  Claim C5, amended. A request is answered with 400 and a body \<open>{ error }\<close>, and the
  database is left as it was, whenever \<open>product_id\<close> or \<open>product_name\<close> is not a
  string with a character other than white space (so also when it is missing or
  empty), or \<open>user_email\<close> is a non-empty string that does not match the address
  pattern, or \<open>timestamp\<close> is a non-empty string that the date parser rejects.
\<close>

theorem invalid_request_rejected:
  assumes "(\<nexists>s. req_product_id req = JStr s \<and> trim s \<noteq> [])
      \<or> (\<nexists>s. req_product_name req = JStr s \<and> trim s \<noteq> [])
      \<or> (\<exists>e. req_user_email req = Some e \<and> e \<noteq> [] \<and> \<not> emailRegex_test e)
      \<or> (\<exists>t. req_timestamp req = Some t \<and> t \<noteq> [] \<and> te_parse_date env t = None)"
  shows "\<exists>msg. track_view env db req = (db, \<lparr>resp_status = 400, resp_body = ErrorBody msg\<rparr>)"
proof -
  consider (pid) "nonblank_string (req_product_id req) = None"
    | (pname) "nonblank_string (req_product_name req) = None"
    | (email) e where "provided (req_user_email req) = Some e" "\<not> emailRegex_test e"
    | (ts) "validate_timestamp env (req_timestamp req) = None"
  proof -
    from assms consider "\<nexists>s. req_product_id req = JStr s \<and> trim s \<noteq> []"
      | "\<nexists>s. req_product_name req = JStr s \<and> trim s \<noteq> []"
      | e where "req_user_email req = Some e" "e \<noteq> []" "\<not> emailRegex_test e"
      | t where "req_timestamp req = Some t" "t \<noteq> []" "te_parse_date env t = None"
      by blast
    then show ?thesis
    proof cases
      case 1
      then have "nonblank_string (req_product_id req) = None"
        by (cases "req_product_id req") (auto simp: nonblank_string_def)
      then show ?thesis by (rule that(1))
    next
      case 2
      then have "nonblank_string (req_product_name req) = None"
        by (cases "req_product_name req") (auto simp: nonblank_string_def)
      then show ?thesis by (rule that(2))
    next
      case 3
      then show ?thesis using that(3) [of e] by (simp add: provided_def)
    next
      case 4
      then show ?thesis using that(4) by (simp add: validate_timestamp_def provided_def)
    qed
  qed
  then show ?thesis
  proof cases
    case pid
    then show ?thesis by (simp add: track_view_def bad_request_def)
  next
    case pname
    then show ?thesis by (simp add: track_view_def bad_request_def split: option.splits)
  next
    case email
    then show ?thesis by (simp add: track_view_def bad_request_def split: option.splits)
  next
    case ts
    then show ?thesis by (simp add: track_view_def bad_request_def split: option.splits)
  qed
qed

theorem invalid_request_rejected_witness:
  "(\<exists>e. req_user_email (sample_request (Some (lit ''invalid-email''))) = Some e
        \<and> e \<noteq> [] \<and> \<not> emailRegex_test e)
   \<and> (\<exists>msg. track_view sample_track_env empty_database
                (sample_request (Some (lit ''invalid-email'')))
              = (empty_database, \<lparr>resp_status = 400, resp_body = ErrorBody msg\<rparr>))"
proof -
  have h: "\<exists>e. req_user_email (sample_request (Some (lit ''invalid-email''))) = Some e
        \<and> e \<noteq> [] \<and> \<not> emailRegex_test e"
    by (simp add: sample_request_def emailRegex_test_def lit_def email_char_def
          is_js_whitespace_def)
  then have "(\<nexists>s. req_product_id (sample_request (Some (lit ''invalid-email''))) = JStr s
                \<and> trim s \<noteq> [])
      \<or> (\<nexists>s. req_product_name (sample_request (Some (lit ''invalid-email''))) = JStr s
                \<and> trim s \<noteq> [])
      \<or> (\<exists>e. req_user_email (sample_request (Some (lit ''invalid-email''))) = Some e
                \<and> e \<noteq> [] \<and> \<not> emailRegex_test e)
      \<or> (\<exists>t. req_timestamp (sample_request (Some (lit ''invalid-email''))) = Some t
                \<and> t \<noteq> [] \<and> te_parse_date sample_track_env t = None)"
    by blast
  from invalid_request_rejected [OF this, of empty_database] h show ?thesis
    by blast
qed

lemma resolve_user_failed:
  "(\<forall>x. te_find_user env = Throws x \<longrightarrow> snd (resolve_user env db e) = None)
   \<and> (te_find_user env \<noteq> Healthy \<and> te_create_user env \<noteq> Healthy
        \<longrightarrow> snd (resolve_user env db e) = None)"
  by (cases "te_find_user env"; cases "te_create_user env")
     (auto simp: resolve_user_def supabase_single_def supabase_insert_def)

lemma resolve_user_found:
  "te_find_user env = Healthy \<Longrightarrow> filter (\<lambda>u. u_email u = Some e) (users db) = [u]
     \<Longrightarrow> resolve_user env db e = (db, Some (u_id u))"
  by (simp add: resolve_user_def supabase_single_def)

lemma insert_view_cases:
  "(te_insert_view env = Healthy \<longrightarrow>
      insert_view env db uid pid pname ts =
        (db\<lparr>products_viewed := products_viewed db @
              [\<lparr>v_id = te_new_view_id env, v_user_id = uid, v_product_id = pid,
                v_product_name = pname, v_timestamp = ts\<rparr>]\<rparr>,
         \<lparr>resp_status = 200, resp_body = SuccessBody (te_new_view_id env) uid pid ts\<rparr>))
   \<and> (\<forall>err. te_insert_view env = Fails err \<longrightarrow>
      insert_view env db uid pid pname ts =
        (db, \<lparr>resp_status = 500,
              resp_body = ErrorDetails ''Failed to track product view'' (err_message err)\<rparr>))
   \<and> (\<forall>m. te_insert_view env = Throws (Exn m) \<longrightarrow>
      insert_view env db uid pid pname ts =
        (db, \<lparr>resp_status = 500, resp_body = ErrorMessage ''Internal server error'' m\<rparr>))"
  by (cases "te_insert_view env") (auto simp: insert_view_def supabase_insert_def)

lemma resolve_user_uid:
  "snd (resolve_user env db e) =
     (case te_find_user env of
        Throws x \<Rightarrow> None
      | Fails err \<Rightarrow> if te_create_user env = Healthy then Some (te_new_user_id env) else None
      | Healthy \<Rightarrow>
          (case filter (\<lambda>u. u_email u = Some e) (users db) of
             [u] \<Rightarrow> Some (u_id u)
           | _ \<Rightarrow> if te_create_user env = Healthy then Some (te_new_user_id env) else None))"
  by (cases "te_find_user env"; cases "te_create_user env")
     (auto simp: resolve_user_def supabase_single_def supabase_insert_def split: list.splits)

lemma resolve_user_not_created:
  assumes "\<nexists>u. filter (\<lambda>u. u_email u = Some e) (users db) = [u]"
    and "te_create_user env \<noteq> Healthy"
  shows "snd (resolve_user env db e) = None"
  using assms unfolding resolve_user_uid
  by (cases "te_find_user env") (auto split: list.splits)

lemma resolve_user_created:
  assumes "te_create_user env = Healthy"
    and "(te_find_user env = Healthy \<and> (\<nexists>u. filter (\<lambda>u. u_email u = Some e) (users db) = [u]))
       \<or> (\<exists>err. te_find_user env = Fails err)"
  shows "snd (resolve_user env db e) = Some (te_new_user_id env)"
  using assms unfolding resolve_user_uid
  by (cases "te_find_user env") (auto split: list.splits)

text \<open>
  Claim C6. For a request that passes validation, whatever happens to the calls that
  look up or create the user and the product, the view is inserted and the answer is
  200, provided the store accepts the insert of the view. The view carries the user the
  lookup finds, or the user the handler creates after a lookup that finds no single
  user or fails, and it carries none whenever user resolution failed: the lookup
  throws, or no user is found and the creation is refused or throws. When the store
  refuses the insert of the view the answer is 500 with \<open>{ error, details }\<close> and no
  view is stored, and when that insert throws the answer is 500 as well.
\<close>

theorem resolution_failures_do_not_abort:
  assumes "req_product_id req = JStr pid" and "trim pid \<noteq> []"
    and "req_product_name req = JStr pname" and "trim pname \<noteq> []"
    and "validate_timestamp env (req_timestamp req) = Some ts"
    and "\<forall>e. provided (req_user_email req) = Some e \<longrightarrow> emailRegex_test e"
  shows "\<exists>db1 uid.
      products_viewed db1 = products_viewed db \<and> messages_sent db1 = messages_sent db
    \<and> (provided (req_user_email req) = None \<longrightarrow> uid = None)
    \<and> (\<forall>x. te_find_user env = Throws x \<longrightarrow> uid = None)
    \<and> (te_find_user env \<noteq> Healthy \<and> te_create_user env \<noteq> Healthy \<longrightarrow> uid = None)
    \<and> (\<forall>e. provided (req_user_email req) = Some e
            \<and> (\<nexists>u. filter (\<lambda>u. u_email u = Some e) (users db) = [u])
            \<and> te_create_user env \<noteq> Healthy \<longrightarrow> uid = None)
    \<and> (\<forall>e u. provided (req_user_email req) = Some e \<and> te_find_user env = Healthy
            \<and> filter (\<lambda>u. u_email u = Some e) (users db) = [u] \<longrightarrow> uid = Some (u_id u))
    \<and> (\<forall>e. provided (req_user_email req) = Some e \<and> te_create_user env = Healthy
            \<and> ((te_find_user env = Healthy
                  \<and> (\<nexists>u. filter (\<lambda>u. u_email u = Some e) (users db) = [u]))
                \<or> (\<exists>err. te_find_user env = Fails err)) \<longrightarrow> uid = Some (te_new_user_id env))
    \<and> (te_insert_view env = Healthy \<longrightarrow>
         track_view env db req =
           (db1\<lparr>products_viewed := products_viewed db @
                  [\<lparr>v_id = te_new_view_id env, v_user_id = uid, v_product_id = pid,
                    v_product_name = pname, v_timestamp = ts\<rparr>]\<rparr>,
            \<lparr>resp_status = 200, resp_body = SuccessBody (te_new_view_id env) uid pid ts\<rparr>))
    \<and> (\<forall>err. te_insert_view env = Fails err \<longrightarrow>
         track_view env db req =
           (db1, \<lparr>resp_status = 500,
                  resp_body = ErrorDetails ''Failed to track product view'' (err_message err)\<rparr>))
    \<and> (\<forall>m. te_insert_view env = Throws (Exn m) \<longrightarrow>
         track_view env db req =
           (db1, \<lparr>resp_status = 500, resp_body = ErrorMessage ''Internal server error'' m\<rparr>))"
proof (cases "provided (req_user_email req)")
  case None
  let ?db1 = "resolve_product env db pid pname"
  have tv: "track_view env db req = insert_view env ?db1 None pid pname ts"
    using track_view_valid [OF assms, of db] None by simp
  have fr: "products_viewed ?db1 = products_viewed db" "messages_sent ?db1 = messages_sent db"
    using resolve_product_frame [of env db pid pname] by simp_all
  show ?thesis
    apply (rule exI [of _ ?db1], rule exI [of _ None])
    using insert_view_cases [of env ?db1 None pid pname ts] None
    by (simp add: tv fr)
next
  case (Some e)
  obtain dbu uid where ru: "resolve_user env db e = (dbu, uid)"
    by (cases "resolve_user env db e")
  let ?db1 = "resolve_product env dbu pid pname"
  have tv: "track_view env db req = insert_view env ?db1 uid pid pname ts"
    using track_view_valid [OF assms, of db] Some ru by simp
  have fu: "products_viewed dbu = products_viewed db" "messages_sent dbu = messages_sent db"
    using resolve_user_frame [OF ru] by simp_all
  have fr: "products_viewed ?db1 = products_viewed db" "messages_sent ?db1 = messages_sent db"
    using resolve_product_frame [of env dbu pid pname] fu by simp_all
  have uid: "uid = snd (resolve_user env db e)"
    using ru by simp
  have failed: "(\<forall>x. te_find_user env = Throws x \<longrightarrow> uid = None)
      \<and> (te_find_user env \<noteq> Healthy \<and> te_create_user env \<noteq> Healthy \<longrightarrow> uid = None)"
    unfolding uid by (rule resolve_user_failed)
  have refused: "\<forall>e'. provided (req_user_email req) = Some e'
            \<and> (\<nexists>u. filter (\<lambda>u. u_email u = Some e') (users db) = [u])
            \<and> te_create_user env \<noteq> Healthy \<longrightarrow> uid = None"
    using Some resolve_user_not_created [of e db env] by (auto simp: uid)
  have found: "\<forall>e' u. provided (req_user_email req) = Some e' \<and> te_find_user env = Healthy
            \<and> filter (\<lambda>u. u_email u = Some e') (users db) = [u] \<longrightarrow> uid = Some (u_id u)"
    using Some resolve_user_found [of env _ db] by (auto simp: uid)
  have created: "\<forall>e'. provided (req_user_email req) = Some e' \<and> te_create_user env = Healthy
            \<and> ((te_find_user env = Healthy
                  \<and> (\<nexists>u. filter (\<lambda>u. u_email u = Some e') (users db) = [u]))
                \<or> (\<exists>err. te_find_user env = Fails err)) \<longrightarrow> uid = Some (te_new_user_id env)"
    using Some resolve_user_created [of env e db] by (auto simp: uid)
  have ins: "(te_insert_view env = Healthy \<longrightarrow>
         track_view env db req =
           (?db1\<lparr>products_viewed := products_viewed db @
                  [\<lparr>v_id = te_new_view_id env, v_user_id = uid, v_product_id = pid,
                    v_product_name = pname, v_timestamp = ts\<rparr>]\<rparr>,
            \<lparr>resp_status = 200, resp_body = SuccessBody (te_new_view_id env) uid pid ts\<rparr>))
    \<and> (\<forall>err. te_insert_view env = Fails err \<longrightarrow>
         track_view env db req =
           (?db1, \<lparr>resp_status = 500,
                  resp_body = ErrorDetails ''Failed to track product view'' (err_message err)\<rparr>))
    \<and> (\<forall>m. te_insert_view env = Throws (Exn m) \<longrightarrow>
         track_view env db req =
           (?db1, \<lparr>resp_status = 500, resp_body = ErrorMessage ''Internal server error'' m\<rparr>))"
    using insert_view_cases [of env ?db1 uid pid pname ts] by (simp add: tv fr)
  show ?thesis
    apply (rule exI [of _ ?db1], rule exI [of _ uid])
    using failed refused found created Some ins fr
    by simp
qed

text \<open>
  The user lookup throws and the product calls are refused: the view is stored with no
  user and the answer is 200. The same when the lookup finds no user and the store
  refuses to create one.
\<close>

theorem resolution_failures_do_not_abort_witness:
  "te_find_user faulty_track_env = Throws (Exn ''fetch failed'')
   \<and> resp_status (snd (track_view faulty_track_env empty_database
                          (sample_request (Some (lit ''a@x.com''))))) = 200
   \<and> products_viewed (fst (track_view faulty_track_env empty_database
                          (sample_request (Some (lit ''a@x.com''))))) =
       [\<lparr>v_id = lit ''v1'', v_user_id = None, v_product_id = lit ''p1'',
         v_product_name = lit ''Widget'', v_timestamp = 1000\<rparr>]
   \<and> te_find_user refusing_user_env = Healthy
   \<and> resp_status (snd (track_view refusing_user_env empty_database
                          (sample_request (Some (lit ''a@x.com''))))) = 200
   \<and> products_viewed (fst (track_view refusing_user_env empty_database
                          (sample_request (Some (lit ''a@x.com''))))) =
       [\<lparr>v_id = lit ''v1'', v_user_id = None, v_product_id = lit ''p1'',
         v_product_name = lit ''Widget'', v_timestamp = 1000\<rparr>]"
proof -
  let ?req = "sample_request (Some (lit ''a@x.com''))"
  have em: "emailRegex_test (lit ''a@x.com'')"
    by (simp add: emailRegex_test_def lit_def email_char_def is_js_whitespace_def)
  have p: "provided (req_user_email ?req) = Some (lit ''a@x.com'')"
    by (simp add: sample_request_def provided_def lit_def)
  have v: "req_product_id ?req = JStr (lit ''p1'')" "trim (lit ''p1'') \<noteq> []"
    "req_product_name ?req = JStr (lit ''Widget'')" "trim (lit ''Widget'') \<noteq> []"
    "validate_timestamp faulty_track_env (req_timestamp ?req) = Some 1000"
    "\<forall>e. provided (req_user_email ?req) = Some e \<longrightarrow> emailRegex_test e"
    using em
    by (auto simp: sample_request_def sample_strings validate_timestamp_def provided_def
          faulty_track_env_def sample_track_env_def split: if_splits)
  have w: "req_product_id ?req = JStr (lit ''p1'')" "trim (lit ''p1'') \<noteq> []"
    "req_product_name ?req = JStr (lit ''Widget'')" "trim (lit ''Widget'') \<noteq> []"
    "validate_timestamp refusing_user_env (req_timestamp ?req) = Some 1000"
    "\<forall>e. provided (req_user_email ?req) = Some e \<longrightarrow> emailRegex_test e"
    using em
    by (auto simp: sample_request_def sample_strings validate_timestamp_def provided_def
          refusing_user_env_def sample_track_env_def split: if_splits)
  have f: "te_find_user faulty_track_env = Throws (Exn ''fetch failed'')"
    "te_insert_view faulty_track_env = Healthy" "te_new_view_id faulty_track_env = lit ''v1''"
    by (simp_all add: faulty_track_env_def sample_track_env_def)
  have g: "te_find_user refusing_user_env = Healthy" "te_create_user refusing_user_env \<noteq> Healthy"
    "te_insert_view refusing_user_env = Healthy" "te_new_view_id refusing_user_env = lit ''v1''"
    "\<nexists>u. filter (\<lambda>u. u_email u = Some (lit ''a@x.com'')) (users empty_database) = [u]"
    by (simp_all add: refusing_user_env_def sample_track_env_def empty_database_def)
  from resolution_failures_do_not_abort [OF v, of empty_database] f
  have first: "resp_status (snd (track_view faulty_track_env empty_database ?req)) = 200
   \<and> products_viewed (fst (track_view faulty_track_env empty_database ?req)) =
       [\<lparr>v_id = lit ''v1'', v_user_id = None, v_product_id = lit ''p1'',
         v_product_name = lit ''Widget'', v_timestamp = 1000\<rparr>]"
    by (auto simp: empty_database_def)
  from resolution_failures_do_not_abort [OF w, of empty_database]
  obtain db1 uid where u: "uid = None"
    and t: "track_view refusing_user_env empty_database ?req =
           (db1\<lparr>products_viewed := products_viewed empty_database @
                  [\<lparr>v_id = te_new_view_id refusing_user_env, v_user_id = uid,
                    v_product_id = lit ''p1'', v_product_name = lit ''Widget'',
                    v_timestamp = 1000\<rparr>]\<rparr>,
            \<lparr>resp_status = 200,
             resp_body = SuccessBody (te_new_view_id refusing_user_env) uid (lit ''p1'') 1000\<rparr>)"
    using g p by blast
  have second: "resp_status (snd (track_view refusing_user_env empty_database ?req)) = 200
   \<and> products_viewed (fst (track_view refusing_user_env empty_database ?req)) =
       [\<lparr>v_id = lit ''v1'', v_user_id = None, v_product_id = lit ''p1'',
         v_product_name = lit ''Widget'', v_timestamp = 1000\<rparr>]"
    unfolding t u by (simp add: g empty_database_def)
  from first second f(1) g(1) show ?thesis by simp
qed

lemma resolve_product_prefix:
  "\<exists>added. products (resolve_product env db pid pname) = products db @ added"
  by (auto simp: resolve_product_def supabase_single_def supabase_insert_def
      split: sum.splits option.splits fault.splits list.splits prod.splits)

lemma resolve_product_creates:
  assumes "te_find_product env = Healthy" and "te_create_product env = Healthy"
    and "\<forall>p \<in> set (products db). p_id p \<noteq> pid"
  shows "products (resolve_product env db pid pname) =
     products db @ [\<lparr>p_id = pid, p_name = pname, p_description = None, p_price = None,
                     p_category = None\<rparr>]"
proof -
  have "filter (\<lambda>p. p_id p = pid) (products db) = []"
    using assms(3) by (simp add: filter_empty_conv)
  then show ?thesis
    using assms(1,2) by (simp add: resolve_product_def supabase_single_def supabase_insert_def)
qed

lemma resolve_product_keeps:
  assumes "te_find_product env = Healthy" and "filter (\<lambda>p. p_id p = pid) (products db) = [p]"
  shows "resolve_product env db pid pname = db"
  using assms by (simp add: resolve_product_def supabase_single_def)

lemma track_view_valid_shape:
  assumes "req_product_id req = JStr pid" and "trim pid \<noteq> []"
    and "req_product_name req = JStr pname" and "trim pname \<noteq> []"
    and "validate_timestamp env (req_timestamp req) = Some ts"
    and "\<forall>e. provided (req_user_email req) = Some e \<longrightarrow> emailRegex_test e"
  shows "\<exists>dbu uid. products dbu = products db \<and> products_viewed dbu = products_viewed db
      \<and> track_view env db req = insert_view env (resolve_product env dbu pid pname) uid pid pname ts"
proof (cases "provided (req_user_email req)")
  case None
  then show ?thesis using track_view_valid [OF assms, of db] by auto
next
  case (Some e)
  obtain dbu uid where ru: "resolve_user env db e = (dbu, uid)"
    by (cases "resolve_user env db e")
  show ?thesis
    using track_view_valid [OF assms, of db] Some ru resolve_user_frame [OF ru] by auto
qed

text \<open>
  Claim C7. Two valid requests for the same \<open>product_id\<close>, the first on a database
  that has no such product and with its product calls carried out: the first call
  creates the product under its name; the second call leaves every product row as it
  is (and adds none when its lookup is carried out), so the record keeps the first
  name; and the two views stored carry each its own \<open>product_name\<close>.
\<close>

theorem product_name_not_overwritten:
  assumes "req_product_id r1 = JStr pid" and "trim pid \<noteq> []"
    and "req_product_name r1 = JStr n1" and "trim n1 \<noteq> []"
    and "validate_timestamp env1 (req_timestamp r1) = Some t1"
    and "\<forall>e. provided (req_user_email r1) = Some e \<longrightarrow> emailRegex_test e"
    and "req_product_id r2 = JStr pid"
    and "req_product_name r2 = JStr n2" and "trim n2 \<noteq> []"
    and "validate_timestamp env2 (req_timestamp r2) = Some t2"
    and "\<forall>e. provided (req_user_email r2) = Some e \<longrightarrow> emailRegex_test e"
    and "te_find_product env1 = Healthy" and "te_create_product env1 = Healthy"
    and "te_insert_view env1 = Healthy" and "te_insert_view env2 = Healthy"
    and "\<forall>p \<in> set (products db). p_id p \<noteq> pid"
    and "track_view env1 db r1 = (db1, resp1)" and "track_view env2 db1 r2 = (db2, resp2)"
  shows "\<exists>added u1 u2.
      products db1 = products db @ [\<lparr>p_id = pid, p_name = n1, p_description = None,
                                      p_price = None, p_category = None\<rparr>]
    \<and> products db2 = products db1 @ added
    \<and> (te_find_product env2 = Healthy \<longrightarrow> added = [])
    \<and> products_viewed db2 = products_viewed db @
         [\<lparr>v_id = te_new_view_id env1, v_user_id = u1, v_product_id = pid,
           v_product_name = n1, v_timestamp = t1\<rparr>,
          \<lparr>v_id = te_new_view_id env2, v_user_id = u2, v_product_id = pid,
           v_product_name = n2, v_timestamp = t2\<rparr>]"
proof -
  let ?row = "\<lparr>p_id = pid, p_name = n1, p_description = None, p_price = None,
               p_category = None\<rparr>"
  obtain dbu u1 where u: "products dbu = products db" "products_viewed dbu = products_viewed db"
    and tv1: "track_view env1 db r1 = insert_view env1 (resolve_product env1 dbu pid n1) u1 pid n1 t1"
    using track_view_valid_shape [OF assms(1-6), of db] by blast
  let ?dbp = "resolve_product env1 dbu pid n1"
  have fresh: "\<forall>p \<in> set (products dbu). p_id p \<noteq> pid"
    using assms(16) u by simp
  have p1: "products ?dbp = products db @ [?row]"
    using resolve_product_creates [OF assms(12,13) fresh, of n1] u by simp
  have db1: "db1 = ?dbp\<lparr>products_viewed := products_viewed ?dbp @
              [\<lparr>v_id = te_new_view_id env1, v_user_id = u1, v_product_id = pid,
                v_product_name = n1, v_timestamp = t1\<rparr>]\<rparr>"
    using insert_view_cases [of env1 ?dbp u1 pid n1 t1] assms(14,17) tv1 by simp
  have prod1: "products db1 = products db @ [?row]"
    by (simp add: db1 p1)
  have views1: "products_viewed db1 = products_viewed db @
              [\<lparr>v_id = te_new_view_id env1, v_user_id = u1, v_product_id = pid,
                v_product_name = n1, v_timestamp = t1\<rparr>]"
    using resolve_product_frame [of env1 dbu pid n1] u by (simp add: db1)
  obtain dbv u2 where v: "products dbv = products db1" "products_viewed dbv = products_viewed db1"
    and tv2: "track_view env2 db1 r2 = insert_view env2 (resolve_product env2 dbv pid n2) u2 pid n2 t2"
    using track_view_valid_shape [OF assms(7) assms(2) assms(8-11), of db1] by blast
  let ?dbq = "resolve_product env2 dbv pid n2"
  obtain added where added: "products ?dbq = products db1 @ added"
    using resolve_product_prefix [of env2 dbv pid n2] v by auto
  have only: "filter (\<lambda>p. p_id p = pid) (products dbv) = [?row]"
    using assms(16) by (simp add: v prod1 filter_empty_conv)
  have keep: "added = []" if "te_find_product env2 = Healthy"
    using resolve_product_keeps [OF that only, of n2] added v by simp
  have db2: "db2 = ?dbq\<lparr>products_viewed := products_viewed ?dbq @
              [\<lparr>v_id = te_new_view_id env2, v_user_id = u2, v_product_id = pid,
                v_product_name = n2, v_timestamp = t2\<rparr>]\<rparr>"
    using insert_view_cases [of env2 ?dbq u2 pid n2 t2] assms(15,18) tv2 by simp
  have prod2: "products db2 = products db1 @ added"
    by (simp add: db2 added)
  have views2: "products_viewed db2 = products_viewed db @
         [\<lparr>v_id = te_new_view_id env1, v_user_id = u1, v_product_id = pid,
           v_product_name = n1, v_timestamp = t1\<rparr>,
          \<lparr>v_id = te_new_view_id env2, v_user_id = u2, v_product_id = pid,
           v_product_name = n2, v_timestamp = t2\<rparr>]"
    using resolve_product_frame [of env2 dbv pid n2] v views1 by (simp add: db2)
  from prod1 prod2 keep views2 show ?thesis by blast
qed

lemma sample_strings_2: "trim (lit ''Gadget'') = lit ''Gadget''" "lit ''Gadget'' \<noteq> []"
  by (simp_all add: trim_def lit_def is_js_whitespace_def)

text \<open>The product is first seen as Widget, then as Gadget.\<close>

theorem product_name_not_overwritten_witness:
  "\<exists>db1 resp1 db2 resp2.
     track_view sample_track_env empty_database (sample_request None) = (db1, resp1)
   \<and> track_view second_track_env db1 second_request = (db2, resp2)
   \<and> map p_name (products db2) = [lit ''Widget'']
   \<and> map v_product_name (products_viewed db2) = [lit ''Widget'', lit ''Gadget'']"
proof -
  obtain db1 resp1 where c1:
    "track_view sample_track_env empty_database (sample_request None) = (db1, resp1)"
    by (cases "track_view sample_track_env empty_database (sample_request None)")
  obtain db2 resp2 where c2: "track_view second_track_env db1 second_request = (db2, resp2)"
    by (cases "track_view second_track_env db1 second_request")
  have v1: "req_product_id (sample_request None) = JStr (lit ''p1'')" "trim (lit ''p1'') \<noteq> []"
    "req_product_name (sample_request None) = JStr (lit ''Widget'')"
    "trim (lit ''Widget'') \<noteq> []"
    "validate_timestamp sample_track_env (req_timestamp (sample_request None)) = Some 1000"
    "\<forall>e. provided (req_user_email (sample_request None)) = Some e \<longrightarrow> emailRegex_test e"
    by (simp_all add: sample_request_def sample_strings validate_timestamp_def provided_def
          sample_track_env_def)
  have v2: "req_product_id second_request = JStr (lit ''p1'')"
    "req_product_name second_request = JStr (lit ''Gadget'')" "trim (lit ''Gadget'') \<noteq> []"
    "validate_timestamp second_track_env (req_timestamp second_request) = Some 2000"
    "\<forall>e. provided (req_user_email second_request) = Some e \<longrightarrow> emailRegex_test e"
    by (simp_all add: second_request_def sample_request_def sample_strings_2
          validate_timestamp_def provided_def second_track_env_def sample_track_env_def)
  have h: "te_find_product sample_track_env = Healthy"
    "te_create_product sample_track_env = Healthy"
    "te_insert_view sample_track_env = Healthy" "te_insert_view second_track_env = Healthy"
    "\<forall>p \<in> set (products empty_database). p_id p \<noteq> lit ''p1''"
    by (simp_all add: second_track_env_def sample_track_env_def empty_database_def)
  have h2: "te_find_product second_track_env = Healthy"
    by (simp add: second_track_env_def sample_track_env_def)
  from product_name_not_overwritten [OF v1 v2 h c1 c2] h2
  have "map p_name (products db2) = [lit ''Widget'']
      \<and> map v_product_name (products_viewed db2) = [lit ''Widget'', lit ''Gadget'']"
    by (auto simp: empty_database_def)
  with c1 c2 show ?thesis
    by (intro exI [of _ db1] exI [of _ resp1] exI [of _ db2] exI [of _ resp2]) simp
qed

section \<open>Grouping\<close>

lemma group_insert_keys:
  "map fst (group_insert v gs) =
     (if jv_user_id v \<in> set (map fst gs) then map fst gs else map fst gs @ [jv_user_id v])"
  by (induction gs) (force split: if_splits)+

lemma group_insert_distinct:
  "distinct (map fst gs) \<Longrightarrow> distinct (map fst (group_insert v gs))"
  by (simp add: group_insert_keys)

lemma group_views_snoc: "group_views (vs @ [v]) = group_insert v (group_views vs)"
  by (simp add: group_views_def)

lemma group_views_distinct: "distinct (map fst (group_views vs))"
  by (induction vs rule: rev_induct)
     (simp_all add: group_views_snoc group_insert_distinct, simp add: group_views_def)

lemma group_insert_wf:
  "groups_of batch gs \<Longrightarrow> v \<in> set batch \<Longrightarrow> groups_of batch (group_insert v gs)"
  by (induction gs) (auto simp: groups_of_def)

lemma groups_of_mono: "groups_of batch gs \<Longrightarrow> set batch \<subseteq> set batch' \<Longrightarrow> groups_of batch' gs"
  by (auto simp: groups_of_def list_all_iff)

lemma group_views_wf: "groups_of vs (group_views vs)"
proof (induction vs rule: rev_induct)
  case Nil
  show ?case by (simp add: group_views_def groups_of_def)
next
  case (snoc v vs)
  have "groups_of (vs @ [v]) (group_views vs)"
    using snoc by (rule groups_of_mono) auto
  then show ?case
    unfolding group_views_snoc by (rule group_insert_wf) simp
qed

lemma group_insert_filter:
  "filter (\<lambda>g. Q (fst g)) (group_insert v gs) =
     (if Q (jv_user_id v) then group_insert v (filter (\<lambda>g. Q (fst g)) gs)
      else filter (\<lambda>g. Q (fst g)) gs)"
  by (induction gs) auto

lemma group_views_filter:
  "filter (\<lambda>g. Q (fst g)) (group_views vs) = group_views (filter (\<lambda>v. Q (jv_user_id v)) vs)"
proof (induction vs rule: rev_induct)
  case Nil
  show ?case by (simp add: group_views_def)
next
  case (snoc v vs)
  show ?case
    by (simp add: group_views_snoc group_insert_filter snoc)
qed

section \<open>One turn of the loop\<close>

lemma say_db [simp]: "ts_db (say st l) = ts_db st"
  and say_trace [simp]: "ts_trace (say st l) = ts_trace st @ [Console l]"
  and say_counts [simp]: "processedCount (say st l) = processedCount st"
    "sentCount (say st l) = sentCount st"
  by (simp_all add: say_def)

lemma rows_due_Cons:
  "rows_due env c db (u, first # rest) =
     (case provided (ju_email (jv_users first)) of
        None \<Rightarrow> []
      | Some email \<Rightarrow>
          if orders_fault env u = Healthy \<and> recent_sms db u c = [] \<and> insert_fault env u = Healthy
          then (case reminder_text env u email first rest of
                  Inl e \<Rightarrow> [] | Inr message \<Rightarrow> [sms_row env u message])
          else [])"
  by (simp add: rows_due_def)

lemma send_reminder_db:
  "ts_db (fst (send_reminder env st u email first rest)) =
     (ts_db st)\<lparr>messages_sent := messages_sent (ts_db st) @
        (if insert_fault env u = Healthy
         then (case reminder_text env u email first rest of
                 Inl e \<Rightarrow> [] | Inr message \<Rightarrow> [sms_row env u message])
         else [])\<rparr>"
  by (cases "insert_fault env u"; cases "reminder_text env u email first rest")
     (simp_all add: send_reminder_def supabase_insert_def Let_def)

lemma process_user_try_db:
  "ts_db (fst (process_user_try env c st g)) =
     (ts_db st)\<lparr>messages_sent := messages_sent (ts_db st) @ rows_due env c (ts_db st) g\<rparr>"
proof (cases g)
  case (Pair u views)
  show ?thesis
  proof (cases views)
    case Nil
    with Pair show ?thesis by (simp add: process_user_try_def rows_due_def)
  next
    case (Cons first rest)
    show ?thesis
    proof (cases "provided (ju_email (jv_users first))")
      case None
      with Pair Cons show ?thesis by (simp add: process_user_try_def rows_due_def)
    next
      case (Some email)
      show ?thesis
      proof (cases "orders_fault env u")
        case Healthy
        show ?thesis
        proof (cases "recent_sms (ts_db st) u c = []")
          case True
          with Pair Cons Some Healthy show ?thesis
            by (simp add: process_user_try_def rows_due_Cons supabase_select_def
                  send_reminder_db)
        next
          case False
          with Pair Cons Some Healthy show ?thesis
            by (simp add: process_user_try_def rows_due_Cons supabase_select_def)
        qed
      next
        case (Fails err)
        with Pair Cons Some show ?thesis
          by (simp add: process_user_try_def rows_due_Cons supabase_select_def)
      next
        case (Throws e)
        with Pair Cons Some show ?thesis
          by (simp add: process_user_try_def rows_due_Cons supabase_select_def)
      qed
    qed
  qed
qed

lemma process_user_db:
  "ts_db (process_user env c st g) =
     (ts_db st)\<lparr>messages_sent := messages_sent (ts_db st) @ rows_due env c (ts_db st) g\<rparr>"
  using process_user_try_db [of env c st g]
  by (cases "process_user_try env c st g") (auto simp: process_user_def split: option.splits)

lemma rows_due_user:
  assumes m: "m \<in> set (rows_due env c db g)"
  shows "m_user_id m = fst g"
proof (cases g)
  case (Pair u views)
  show ?thesis
  proof (cases views)
    case Nil
    with Pair m show ?thesis by (simp add: rows_due_def)
  next
    case (Cons first rest)
    have "rows_due env c db (u, first # rest) = []
        \<or> (\<exists>message. rows_due env c db (u, first # rest) = [sms_row env u message])"
      by (auto simp: rows_due_Cons split: option.splits sum.splits)
    moreover have "m_user_id (sms_row env u message) = u" for message
      by (simp add: sms_row_def)
    ultimately show ?thesis
      using m Pair Cons by auto
  qed
qed

lemma rows_due_length: "length (rows_due env c db g) \<le> 1"
  by (cases g) (simp add: rows_due_def split: list.splits option.splits sum.splits)

lemma rows_due_cong:
  "recent_sms db (fst g) c = recent_sms db' (fst g) c \<Longrightarrow> rows_due env c db g = rows_due env c db' g"
  by (cases g) (auto simp: rows_due_def split: list.splits option.splits)

lemma recent_sms_append:
  "recent_sms (db\<lparr>messages_sent := messages_sent db @ rows\<rparr>) u c =
     recent_sms db u c @ filter (\<lambda>m. m_user_id m = u \<and> m_message_type m = lit ''sms'' \<and> c \<le> m_sent_at m) rows"
  by (simp add: recent_sms_def)

lemma recent_sms_other:
  "fst g \<noteq> u \<Longrightarrow>
     recent_sms (db\<lparr>messages_sent := messages_sent db @ rows_due env c db' g\<rparr>) u c = recent_sms db u c"
  by (auto simp: recent_sms_append filter_empty_conv dest: rows_due_user)

section \<open>The loop\<close>

lemma loop_db:
  "distinct (map fst gs) \<Longrightarrow>
     ts_db (foldl (process_user env c) st gs) =
       (ts_db st)\<lparr>messages_sent := messages_sent (ts_db st) @
          concat (map (rows_due env c (ts_db st)) gs)\<rparr>"
proof (induction gs arbitrary: st)
  case Nil
  show ?case by simp
next
  case (Cons g gs)
  let ?st = "process_user env c st g"
  have same: "rows_due env c (ts_db ?st) h = rows_due env c (ts_db st) h" if "h \<in> set gs" for h
  proof (rule rows_due_cong)
    from that Cons.prems have "fst g \<noteq> fst h" by auto
    then show "recent_sms (ts_db ?st) (fst h) c = recent_sms (ts_db st) (fst h) c"
      unfolding process_user_db by (rule recent_sms_other)
  qed
  then have eq: "map (rows_due env c (ts_db ?st)) gs = map (rows_due env c (ts_db st)) gs"
    by simp
  have "ts_db (foldl (process_user env c) ?st gs) =
       (ts_db ?st)\<lparr>messages_sent := messages_sent (ts_db ?st) @
          concat (map (rows_due env c (ts_db ?st)) gs)\<rparr>"
    using Cons.prems by (intro Cons.IH) simp
  then have "ts_db (foldl (process_user env c) ?st gs) =
       (ts_db ?st)\<lparr>messages_sent := messages_sent (ts_db ?st) @
          concat (map (rows_due env c (ts_db st)) gs)\<rparr>"
    unfolding eq .
  then show ?case
    by (simp add: process_user_db)
qed

lemma user_lines_Cons:
  "user_lines env c db (u, first # rest) =
            (case provided (ju_email (jv_users first)) of
               None \<Rightarrow> [Console (SkipNoEmail u)]
             | Some email \<Rightarrow>
                 (case orders_fault env u of
                    Throws e \<Rightarrow> [Console (UserError u e)]
                  | Fails err \<Rightarrow> [Console (OrdersError u err)]
                  | Healthy \<Rightarrow>
                      if recent_sms db u c \<noteq> [] then [Console (SkipRecent email)]
                      else (case reminder_text env u email first rest of
                              Inl e \<Rightarrow> [Console (UserError u e)]
                            | Inr message \<Rightarrow>
                                [Console (Generated email message),
                                 Console (WouldSend email message)] @
                                (case insert_fault env u of
                                   Healthy \<Rightarrow> [Console (MessageLogged email), Pause 1000]
                                 | Fails err \<Rightarrow> [Console (LogError u err), Pause 1000]
                                 | Throws e \<Rightarrow> [Console (UserError u e)]))))"
  by (simp add: user_lines_def)

lemma send_reminder_trace:
  "(case send_reminder env st u email first rest of
      (st', None) \<Rightarrow> ts_trace st'
    | (st', Some e) \<Rightarrow> ts_trace st' @ [Console (UserError u e)]) =
   ts_trace st @
     (case reminder_text env u email first rest of
        Inl e \<Rightarrow> [Console (UserError u e)]
      | Inr message \<Rightarrow>
          [Console (Generated email message), Console (WouldSend email message)] @
          (case insert_fault env u of
             Healthy \<Rightarrow> [Console (MessageLogged email), Pause 1000]
           | Fails err \<Rightarrow> [Console (LogError u err), Pause 1000]
           | Throws e \<Rightarrow> [Console (UserError u e)]))"
  by (cases "insert_fault env u"; cases "reminder_text env u email first rest")
     (simp_all add: send_reminder_def supabase_insert_def Let_def)

lemma send_reminder_counts_trace:
  "(case send_reminder env (st\<lparr>processedCount := n\<rparr>) u email first rest of
      (st', None) \<Rightarrow> ts_trace st'
    | (st', Some e) \<Rightarrow> ts_trace st' @ [Console (UserError u e)]) =
   (case send_reminder env st u email first rest of
      (st', None) \<Rightarrow> ts_trace st'
    | (st', Some e) \<Rightarrow> ts_trace st' @ [Console (UserError u e)])"
  unfolding send_reminder_trace by simp

lemma process_user_trace:
  "ts_trace (process_user env c st g) = ts_trace st @ user_lines env c (ts_db st) g"
proof (cases g)
  case (Pair u views)
  show ?thesis
  proof (cases views)
    case Nil
    with Pair show ?thesis by (simp add: process_user_def process_user_try_def user_lines_def)
  next
    case (Cons first rest)
    show ?thesis
    proof (cases "provided (ju_email (jv_users first))")
      case None
      with Pair Cons show ?thesis
        by (simp add: process_user_def process_user_try_def user_lines_def)
    next
      case (Some email)
      show ?thesis
      proof (cases "orders_fault env u")
        case Healthy
        show ?thesis
        proof (cases "recent_sms (ts_db st) u c = []")
          case True
          have "ts_trace (process_user env c st g) =
             (case send_reminder env (st\<lparr>processedCount := processedCount st + 1\<rparr>) u email
                     first rest of
                (st', None) \<Rightarrow> ts_trace st'
              | (st', Some e) \<Rightarrow> ts_trace st' @ [Console (UserError u e)])"
            using Pair Cons Some Healthy True
            by (simp add: process_user_def process_user_try_def supabase_select_def
                  split: prod.splits option.splits)
          then show ?thesis
            using Pair Cons Some Healthy True
            by (simp add: send_reminder_counts_trace send_reminder_trace user_lines_Cons)
        next
          case False
          with Pair Cons Some Healthy show ?thesis
            by (simp add: process_user_def process_user_try_def user_lines_Cons
                  supabase_select_def)
        qed
      next
        case (Fails err)
        with Pair Cons Some show ?thesis
          by (simp add: process_user_def process_user_try_def user_lines_Cons supabase_select_def)
      next
        case (Throws e)
        with Pair Cons Some show ?thesis
          by (simp add: process_user_def process_user_try_def user_lines_Cons supabase_select_def)
      qed
    qed
  qed
qed

lemma user_lines_cong:
  "recent_sms db (fst g) c = recent_sms db' (fst g) c \<Longrightarrow> user_lines env c db g = user_lines env c db' g"
  by (cases g) (auto simp: user_lines_def split: list.splits option.splits fault.splits)

lemma loop_trace:
  "distinct (map fst gs) \<Longrightarrow>
     ts_trace (foldl (process_user env c) st gs) =
       ts_trace st @ concat (map (user_lines env c (ts_db st)) gs)"
proof (induction gs arbitrary: st)
  case Nil
  show ?case by simp
next
  case (Cons g gs)
  let ?st = "process_user env c st g"
  have same: "user_lines env c (ts_db ?st) h = user_lines env c (ts_db st) h" if "h \<in> set gs" for h
  proof (rule user_lines_cong)
    from that Cons.prems have "fst g \<noteq> fst h" by auto
    then show "recent_sms (ts_db ?st) (fst h) c = recent_sms (ts_db st) (fst h) c"
      unfolding process_user_db by (rule recent_sms_other)
  qed
  then have eq: "map (user_lines env c (ts_db ?st)) gs = map (user_lines env c (ts_db st)) gs"
    by simp
  have "ts_trace (foldl (process_user env c) ?st gs) =
       ts_trace ?st @ concat (map (user_lines env c (ts_db ?st)) gs)"
    using Cons.prems by (intro Cons.IH) simp
  then show ?case
    unfolding eq by (simp add: process_user_trace)
qed

section \<open>The whole run\<close>

lemma tick_db:
  "ts_db (fst (checkAbandonedCarts env db)) =
     (if views_fault env = Healthy
      then db\<lparr>messages_sent := messages_sent db @
             concat (map (rows_due env (cutoff_of env) db) (user_groups env db))\<rparr>
      else db)"
proof (cases "views_fault env")
  case Healthy
  show ?thesis
  proof (cases "fetch_recent_views db (cutoff_of env)")
    case Nil
    with Healthy show ?thesis
      by (simp add: checkAbandonedCarts_def tick_try_def supabase_select_def user_groups_def
            group_views_def cutoff_of_def)
  next
    case (Cons v vs)
    have d: "distinct (map fst (group_views (v # vs)))"
      by (rule group_views_distinct)
    from Healthy Cons show ?thesis
      by (simp add: checkAbandonedCarts_def tick_try_def supabase_select_def user_groups_def
            cutoff_of_def loop_db [OF d] Let_def)
  qed
next
  case (Fails err)
  then show ?thesis
    by (simp add: checkAbandonedCarts_def tick_try_def supabase_select_def)
next
  case (Throws e)
  then show ?thesis
    by (simp add: checkAbandonedCarts_def tick_try_def supabase_select_def)
qed

lemma tick_trace:
  assumes "views_fault env = Healthy" and "g \<in> set (user_groups env db)"
  shows "set (user_lines env (cutoff_of env) db g) \<subseteq> set (ts_trace (fst (checkAbandonedCarts env db)))"
proof (cases "fetch_recent_views db (cutoff_of env)")
  case Nil
  with assms(2) show ?thesis by (simp add: user_groups_def group_views_def)
next
  case (Cons v vs)
  have d: "distinct (map fst (group_views (v # vs)))"
    by (rule group_views_distinct)
  have g: "g \<in> set (group_views (v # vs))"
    using assms(2) Cons by (simp add: user_groups_def)
  from assms(1) Cons have "ts_trace (fst (checkAbandonedCarts env db)) =
     [Console Checking, Console (FoundViews (length (v # vs)))] @
     concat (map (user_lines env (cutoff_of env) db) (group_views (v # vs))) @
     [Console (Summary
        (processedCount (foldl (process_user env (cutoff_of env))
           (say \<lparr>ts_db = db, ts_trace = [Console Checking], processedCount = 0, sentCount = 0\<rparr>
              (FoundViews (length (v # vs)))) (group_views (v # vs))))
        (sentCount (foldl (process_user env (cutoff_of env))
           (say \<lparr>ts_db = db, ts_trace = [Console Checking], processedCount = 0, sentCount = 0\<rparr>
              (FoundViews (length (v # vs)))) (group_views (v # vs)))))]"
    by (simp add: checkAbandonedCarts_def tick_try_def supabase_select_def
          cutoff_of_def loop_trace [OF d] Let_def)
  then show ?thesis
    using g by auto
qed


section \<open>The batch and its groups\<close>

lemma join_view_Some:
  "join_view db v = Some jv \<Longrightarrow>
     \<exists>usr. v_user_id v = Some (jv_user_id jv) \<and> lookup_user db (jv_user_id jv) = Some usr
       \<and> jv_users jv = \<lparr>ju_email = u_email usr, ju_full_name = u_full_name usr\<rparr>"
  by (auto simp: join_view_def split: option.splits)

lemma set_fetch_recent_views:
  "set (fetch_recent_views db c) =
     {jv. \<exists>v \<in> set (products_viewed db). c \<le> v_timestamp v \<and> join_view db v = Some jv}"
  by (force simp: fetch_recent_views_def List.map_filter_def image_iff)

lemma fetched_user:
  assumes "jv \<in> set (fetch_recent_views db c)"
  shows "\<exists>usr. lookup_user db (jv_user_id jv) = Some usr
       \<and> jv_users jv = \<lparr>ju_email = u_email usr, ju_full_name = u_full_name usr\<rparr>"
  using assms join_view_Some unfolding set_fetch_recent_views by blast

lemma group_views_keys: "set (map fst (group_views vs)) = jv_user_id ` set vs"
proof (induction vs rule: rev_induct)
  case Nil
  show ?case by (simp add: group_views_def)
next
  case (snoc v vs)
  then show ?case
    by (auto simp: group_views_snoc group_insert_keys)
qed

lemma group_member:
  assumes "(u, views) \<in> set (group_views batch)"
  shows "\<exists>first rest. views = first # rest \<and> first \<in> set batch \<and> jv_user_id first = u"
proof -
  have "groups_of batch (group_views batch)" by (rule group_views_wf)
  with assms have "views \<noteq> []" and "list_all (\<lambda>v. v \<in> set batch \<and> jv_user_id v = u) views"
    by (auto simp: groups_of_def list_all_iff)
  then show ?thesis by (cases views) auto
qed

lemma user_group_member:
  assumes "(u, views) \<in> set (user_groups env db)"
  shows "\<exists>first rest usr. views = first # rest \<and> lookup_user db u = Some usr
     \<and> jv_users first = \<lparr>ju_email = u_email usr, ju_full_name = u_full_name usr\<rparr>"
proof -
  from assms obtain first rest where v: "views = first # rest"
    and f: "first \<in> set (fetch_recent_views db (cutoff_of env))" and u: "jv_user_id first = u"
    unfolding user_groups_def using group_member by blast
  from fetched_user [OF f] u v show ?thesis by auto
qed

lemma user_group_exists:
  assumes "v \<in> set (products_viewed db)" and "cutoff_of env \<le> v_timestamp v"
    and "v_user_id v = Some u" and "lookup_user db u = Some usr"
  shows "\<exists>first rest. (u, first # rest) \<in> set (user_groups env db)
     \<and> jv_users first = \<lparr>ju_email = u_email usr, ju_full_name = u_full_name usr\<rparr>"
proof -
  obtain jv where jv: "join_view db v = Some jv" "jv_user_id jv = u"
    using assms(3,4) by (simp add: join_view_def)
  then have "jv \<in> set (fetch_recent_views db (cutoff_of env))"
    using assms(1,2) unfolding set_fetch_recent_views by blast
  then have "u \<in> set (map fst (user_groups env db))"
    unfolding user_groups_def group_views_keys using jv(2) by blast
  then obtain views where g: "(u, views) \<in> set (user_groups env db)"
    by auto
  from user_group_member [OF g] assms(4) g show ?thesis by auto
qed

section \<open>Rows of one user\<close>

lemma rows_due_filter:
  "filter (\<lambda>m. m_user_id m = u) (rows_due env c db g) = (if fst g = u then rows_due env c db g else [])"
  by (auto simp: filter_empty_conv filter_id_conv dest: rows_due_user)

lemma rows_of_absent_user:
  "u \<notin> fst ` set gs \<Longrightarrow> filter (\<lambda>m. m_user_id m = u) (concat (map (rows_due env c db) gs)) = []"
  by (induction gs) (auto simp: rows_due_filter)

lemma rows_of_user:
  "distinct (map fst gs) \<Longrightarrow> (u, views) \<in> set gs \<Longrightarrow>
     filter (\<lambda>m. m_user_id m = u) (concat (map (rows_due env c db) gs)) = rows_due env c db (u, views)"
proof (induction gs)
  case Nil
  then show ?case by simp
next
  case (Cons g gs)
  show ?case
  proof (cases "g = (u, views)")
    case True
    with Cons.prems have "u \<notin> fst ` set gs" by auto
    then show ?thesis
      using True by (simp add: rows_due_filter rows_of_absent_user)
  next
    case False
    with Cons.prems have "(u, views) \<in> set gs" and "fst g \<noteq> u" by (auto simp: image_iff)
    then show ?thesis
      using Cons by (simp add: rows_due_filter)
  qed
qed

lemma tick_messages_of:
  "messages_of u (ts_db (fst (checkAbandonedCarts env db))) =
     messages_of u db @
       (if views_fault env = Healthy
        then filter (\<lambda>m. m_user_id m = u)
               (concat (map (rows_due env (cutoff_of env) db) (user_groups env db)))
        else [])"
  by (simp add: tick_db messages_of_def)

lemma user_groups_distinct: "distinct (map fst (user_groups env db))"
  unfolding user_groups_def by (rule group_views_distinct)

lemma tick_messages_of_group:
  assumes "views_fault env = Healthy" and "(u, views) \<in> set (user_groups env db)"
  shows "messages_of u (ts_db (fst (checkAbandonedCarts env db))) =
     messages_of u db @ rows_due env (cutoff_of env) db (u, views)"
  using assms by (simp add: tick_messages_of rows_of_user [OF user_groups_distinct])

lemma tick_messages_of_bound:
  "\<exists>added. messages_of u (ts_db (fst (checkAbandonedCarts env db))) = messages_of u db @ added
     \<and> length added \<le> 1"
proof (cases "views_fault env = Healthy \<and> u \<in> fst ` set (user_groups env db)")
  case True
  then obtain views where "(u, views) \<in> set (user_groups env db)" by auto
  with True show ?thesis
    using tick_messages_of_group [of env u views db] rows_due_length by auto
next
  case False
  then show ?thesis
    by (auto simp: tick_messages_of rows_of_absent_user)
qed

lemma recent_sms_conv:
  "recent_sms db u c \<noteq> [] \<longleftrightarrow>
     (\<exists>m \<in> set (messages_sent db). m_user_id m = u \<and> m_message_type m = lit ''sms'' \<and> c \<le> m_sent_at m)"
  by (auto simp: recent_sms_def filter_empty_conv)

section \<open>What a run logs and records\<close>

lemma tick_trace_full:
  "\<exists>p s. ts_trace (fst (checkAbandonedCarts env db)) =
     (case views_fault env of
        Throws e \<Rightarrow> [Console Checking, Console (TickError e)]
      | Fails err \<Rightarrow> [Console Checking, Console (FetchError err)]
      | Healthy \<Rightarrow>
          if fetch_recent_views db (cutoff_of env) = []
          then [Console Checking, Console NoRecentViews]
          else [Console Checking,
                Console (FoundViews (length (fetch_recent_views db (cutoff_of env))))] @
               concat (map (user_lines env (cutoff_of env) db) (user_groups env db)) @
               [Console (Summary p s)])"
proof (cases "views_fault env")
  case Healthy
  show ?thesis
  proof (cases "fetch_recent_views db (cutoff_of env)")
    case Nil
    with Healthy show ?thesis
      by (simp add: checkAbandonedCarts_def tick_try_def supabase_select_def cutoff_of_def)
  next
    case (Cons v vs)
    have d: "distinct (map fst (group_views (v # vs)))"
      by (rule group_views_distinct)
    from Healthy Cons show ?thesis
      by (simp add: checkAbandonedCarts_def tick_try_def supabase_select_def user_groups_def
            cutoff_of_def loop_trace [OF d] Let_def)
  qed
next
  case (Fails err)
  then show ?thesis
    by (simp add: checkAbandonedCarts_def tick_try_def supabase_select_def)
next
  case (Throws e)
  then show ?thesis
    by (simp add: checkAbandonedCarts_def tick_try_def supabase_select_def)
qed


lemma tick_state_failed:
  "(\<forall>err. views_fault env = Fails err \<longrightarrow>
      fst (checkAbandonedCarts env db) =
        \<lparr>ts_db = db, ts_trace = [Console Checking, Console (FetchError err)],
         processedCount = 0, sentCount = 0\<rparr>)
   \<and> (\<forall>e. views_fault env = Throws e \<longrightarrow>
      fst (checkAbandonedCarts env db) =
        \<lparr>ts_db = db, ts_trace = [Console Checking, Console (TickError e)],
         processedCount = 0, sentCount = 0\<rparr>)"
  by (auto simp: checkAbandonedCarts_def tick_try_def supabase_select_def say_def)

lemma tick_returns: "snd (checkAbandonedCarts env db) = None"
  by (cases "tick_try env db") (auto simp: checkAbandonedCarts_def split: option.splits)

text \<open>What the run logs and records for one group with an email.\<close>

lemma group_turn:
  assumes "views_fault env = Healthy" and "(u, first # rest) \<in> set (user_groups env db)"
    and "provided (ju_email (jv_users first)) = Some email"
  shows
    "(\<forall>e. orders_fault env u = Throws e \<longrightarrow>
        Console (UserError u e) \<in> set (ts_trace (fst (checkAbandonedCarts env db))))
   \<and> (\<forall>err. orders_fault env u = Fails err \<longrightarrow>
        Console (OrdersError u err) \<in> set (ts_trace (fst (checkAbandonedCarts env db))))
   \<and> (orders_fault env u = Healthy \<and> recent_sms db u (cutoff_of env) \<noteq> [] \<longrightarrow>
        Console (SkipRecent email) \<in> set (ts_trace (fst (checkAbandonedCarts env db))))
   \<and> (orders_fault env u = Healthy \<and> recent_sms db u (cutoff_of env) = [] \<longrightarrow>
        (\<forall>e. reminder_text env u email first rest = Inl e \<longrightarrow>
           Console (UserError u e) \<in> set (ts_trace (fst (checkAbandonedCarts env db))))
      \<and> (\<forall>message. reminder_text env u email first rest = Inr message \<longrightarrow>
           Console (Generated email message) \<in> set (ts_trace (fst (checkAbandonedCarts env db)))
         \<and> Console (WouldSend email message) \<in> set (ts_trace (fst (checkAbandonedCarts env db)))
         \<and> (\<forall>e. insert_fault env u = Throws e \<longrightarrow>
               Console (UserError u e) \<in> set (ts_trace (fst (checkAbandonedCarts env db))))
         \<and> (\<forall>err. insert_fault env u = Fails err \<longrightarrow>
               Console (LogError u err) \<in> set (ts_trace (fst (checkAbandonedCarts env db))))
         \<and> (insert_fault env u = Healthy \<longrightarrow>
               Console (MessageLogged email) \<in> set (ts_trace (fst (checkAbandonedCarts env db))))))"
proof -
  have sub: "set (user_lines env (cutoff_of env) db (u, first # rest))
      \<subseteq> set (ts_trace (fst (checkAbandonedCarts env db)))"
    using assms(1,2) by (rule tick_trace)
  have l: "user_lines env (cutoff_of env) db (u, first # rest) =
      (case orders_fault env u of
                    Throws e \<Rightarrow> [Console (UserError u e)]
                  | Fails err \<Rightarrow> [Console (OrdersError u err)]
                  | Healthy \<Rightarrow>
                      if recent_sms db u (cutoff_of env) \<noteq> [] then [Console (SkipRecent email)]
                      else (case reminder_text env u email first rest of
                              Inl e \<Rightarrow> [Console (UserError u e)]
                            | Inr message \<Rightarrow>
                                [Console (Generated email message),
                                 Console (WouldSend email message)] @
                                (case insert_fault env u of
                                   Healthy \<Rightarrow> [Console (MessageLogged email), Pause 1000]
                                 | Fails err \<Rightarrow> [Console (LogError u err), Pause 1000]
                                 | Throws e \<Rightarrow> [Console (UserError u e)])))"
    using assms(3) by (simp add: user_lines_Cons)
  show ?thesis
    using sub unfolding l by (auto split: fault.splits sum.splits if_splits)
qed

lemma group_rows:
  assumes "views_fault env = Healthy" and "(u, first # rest) \<in> set (user_groups env db)"
    and "provided (ju_email (jv_users first)) = Some email"
  shows "messages_of u (ts_db (fst (checkAbandonedCarts env db))) =
     messages_of u db @
       (if orders_fault env u = Healthy \<and> recent_sms db u (cutoff_of env) = []
           \<and> insert_fault env u = Healthy
        then (case reminder_text env u email first rest of
                Inl e \<Rightarrow> [] | Inr message \<Rightarrow> [sms_row env u message])
        else [])"
  using tick_messages_of_group [OF assms(1,2)] assms(3) by (simp add: rows_due_Cons)

lemma recent_blocks:
  assumes "recent_sms db u (cutoff_of env) \<noteq> []"
  shows "messages_of u (ts_db (fst (checkAbandonedCarts env db))) = messages_of u db"
proof (cases "views_fault env = Healthy \<and> u \<in> fst ` set (user_groups env db)")
  case True
  then obtain views where g: "(u, views) \<in> set (user_groups env db)" by auto
  have "rows_due env (cutoff_of env) db (u, views) = []"
    using assms by (simp add: rows_due_def split: list.splits option.splits)
  with True g show ?thesis
    using tick_messages_of_group [of env u views db] by simp
next
  case False
  then show ?thesis
    by (auto simp: tick_messages_of rows_of_absent_user)
qed

section \<open>Where a generated text comes from\<close>

lemma user_lines_generated:
  assumes "Console (Generated e m) \<in> set (user_lines env c db (u, first # rest))
      \<or> Console (WouldSend e m) \<in> set (user_lines env c db (u, first # rest))"
  shows "provided (ju_email (jv_users first)) = Some e \<and> orders_fault env u = Healthy
      \<and> recent_sms db u c = [] \<and> reminder_text env u e first rest = Inr m"
proof (cases "provided (ju_email (jv_users first))")
  case None
  with assms show ?thesis by (simp add: user_lines_Cons)
next
  case (Some email)
  show ?thesis
  proof (cases "orders_fault env u")
    case Healthy
    show ?thesis
    proof (cases "recent_sms db u c = []")
      case True
      show ?thesis
      proof (cases "reminder_text env u email first rest")
        case (Inl x)
        with assms Some Healthy True show ?thesis by (simp add: user_lines_Cons)
      next
        case (Inr message)
        with assms Some Healthy True show ?thesis
          by (cases "insert_fault env u") (auto simp: user_lines_Cons)
      qed
    next
      case False
      with assms Some Healthy show ?thesis by (simp add: user_lines_Cons)
    qed
  next
    case (Fails err)
    with assms Some show ?thesis by (simp add: user_lines_Cons)
  next
    case (Throws x)
    with assms Some show ?thesis by (simp add: user_lines_Cons)
  qed
qed

lemma generated_origin:
  assumes "Console (Generated e m) \<in> set (ts_trace (fst (checkAbandonedCarts env db)))
      \<or> Console (WouldSend e m) \<in> set (ts_trace (fst (checkAbandonedCarts env db)))"
  shows "\<exists>u first rest. (u, first # rest) \<in> set (user_groups env db)
      \<and> provided (ju_email (jv_users first)) = Some e \<and> orders_fault env u = Healthy
      \<and> recent_sms db u (cutoff_of env) = [] \<and> reminder_text env u e first rest = Inr m"
proof -
  obtain a b where t: "ts_trace (fst (checkAbandonedCarts env db)) =
     (case views_fault env of
        Throws e \<Rightarrow> [Console Checking, Console (TickError e)]
      | Fails err \<Rightarrow> [Console Checking, Console (FetchError err)]
      | Healthy \<Rightarrow>
          if fetch_recent_views db (cutoff_of env) = []
          then [Console Checking, Console NoRecentViews]
          else [Console Checking,
                Console (FoundViews (length (fetch_recent_views db (cutoff_of env))))] @
               concat (map (user_lines env (cutoff_of env) db) (user_groups env db)) @
               [Console (Summary a b)])"
    using tick_trace_full [of env db] by blast
  from assms have "\<exists>g \<in> set (user_groups env db).
      Console (Generated e m) \<in> set (user_lines env (cutoff_of env) db g)
      \<or> Console (WouldSend e m) \<in> set (user_lines env (cutoff_of env) db g)"
    unfolding t by (cases "views_fault env") (auto split: if_splits)
  then obtain u views where g: "(u, views) \<in> set (user_groups env db)"
    and l: "Console (Generated e m) \<in> set (user_lines env (cutoff_of env) db (u, views))
      \<or> Console (WouldSend e m) \<in> set (user_lines env (cutoff_of env) db (u, views))"
    by auto
  from user_group_member [OF g] obtain first rest where v: "views = first # rest"
    by blast
  from user_lines_generated [OF l [unfolded v]] g v show ?thesis
    by blast
qed

lemma group_member_all:
  assumes "(u, views) \<in> set (group_views batch)" and "jv \<in> set views"
  shows "jv \<in> set batch \<and> jv_user_id jv = u"
proof -
  have "groups_of batch (group_views batch)" by (rule group_views_wf)
  with assms show ?thesis
    by (auto simp: groups_of_def list_all_iff)
qed




section \<open>Claims about the Abandonment Scanner\<close>

text \<open>
  Claim C9. Grouping a batch gives every user identifier of the batch exactly one group
  (the keys are distinct and are the identifiers that occur); one turn of the loop adds
  at most one row to \<open>messages_sent\<close>; and a whole run adds at most one row for any
  user identifier.
\<close>

theorem at_most_one_reminder_per_user:
  "distinct (map fst (group_views batch))
   \<and> set (map fst (group_views batch)) = jv_user_id ` set batch
   \<and> (\<exists>added. messages_sent (ts_db (process_user env c st g)) = messages_sent (ts_db st) @ added
          \<and> length added \<le> 1)
   \<and> (\<exists>added. messages_of u (ts_db (fst (checkAbandonedCarts env db))) = messages_of u db @ added
          \<and> length added \<le> 1)"
  using group_views_distinct [of batch] group_views_keys [of batch]
    tick_messages_of_bound [of u env db] rows_due_length [of env c "ts_db st" g]
  by (simp add: process_user_db)

text \<open>The sample run: three groups, and at most one more reminder for the first user.\<close>

theorem at_most_one_reminder_per_user_witness:
  "distinct (map fst (group_views (fetch_recent_views sample_database 0)))
   \<and> length (messages_of (lit ''u1'')
         (ts_db (fst (checkAbandonedCarts sample_tick_env sample_database))))
       \<le> Suc (length (messages_of (lit ''u1'') sample_database))"
proof -
  from at_most_one_reminder_per_user
    [of "fetch_recent_views sample_database 0" sample_tick_env 0
        "\<lparr>ts_db = sample_database, ts_trace = [], processedCount = 0, sentCount = 0\<rparr>"
        "(lit ''u1'', [])" "lit ''u1''" sample_database]
  obtain added where "distinct (map fst (group_views (fetch_recent_views sample_database 0)))"
    and "messages_of (lit ''u1'') (ts_db (fst (checkAbandonedCarts sample_tick_env sample_database)))
       = messages_of (lit ''u1'') sample_database @ added" and "length added \<le> 1"
    by blast
  then show ?thesis by simp
qed

section \<open>The sample run\<close>

lemma sample_user_groups:
  assumes "now_start env = 1800000"
  shows "user_groups env sample_database =
    [(lit ''u3'',
      [\<lparr>jv_id = lit ''v5'', jv_user_id = lit ''u3'', jv_product_id = lit ''p1'',
        jv_product_name = lit ''Widget'', jv_timestamp = 1500000,
        jv_users = \<lparr>ju_email = Some (lit ''b@x.com''), ju_full_name = Some (lit ''Bob'')\<rparr>\<rparr>]),
     (lit ''u2'',
      [\<lparr>jv_id = lit ''v3'', jv_user_id = lit ''u2'', jv_product_id = lit ''p1'',
        jv_product_name = lit ''Widget'', jv_timestamp = 1000000,
        jv_users = \<lparr>ju_email = None, ju_full_name = Some (lit ''Nomail'')\<rparr>\<rparr>]),
     (lit ''u1'',
      [\<lparr>jv_id = lit ''v2'', jv_user_id = lit ''u1'', jv_product_id = lit ''p2'',
        jv_product_name = lit ''Gadget'', jv_timestamp = 120000,
        jv_users = \<lparr>ju_email = Some (lit ''a@x.com''), ju_full_name = None\<rparr>\<rparr>,
       \<lparr>jv_id = lit ''v1'', jv_user_id = lit ''u1'', jv_product_id = lit ''p1'',
        jv_product_name = lit ''Widget'', jv_timestamp = 0,
        jv_users = \<lparr>ju_email = Some (lit ''a@x.com''), ju_full_name = None\<rparr>\<rparr>])]"
  using assms
  by (simp add: user_groups_def cutoff_of_def sample_database_def
        fetch_recent_views_def List.map_filter_def join_view_def lookup_user_def lit_def
        group_views_def)

lemma sample_reminder_text:
  assumes "openai env (lit ''u1'') = (\<lambda>n p l k. Inr (lit ''Hi''))"
  shows "reminder_text env (lit ''u1'') (lit ''a@x.com'')
      \<lparr>jv_id = lit ''v2'', jv_user_id = lit ''u1'', jv_product_id = lit ''p2'',
        jv_product_name = lit ''Gadget'', jv_timestamp = 120000,
        jv_users = \<lparr>ju_email = Some (lit ''a@x.com''), ju_full_name = None\<rparr>\<rparr>
      [\<lparr>jv_id = lit ''v1'', jv_user_id = lit ''u1'', jv_product_id = lit ''p1'',
        jv_product_name = lit ''Widget'', jv_timestamp = 0,
        jv_users = \<lparr>ju_email = Some (lit ''a@x.com''), ju_full_name = None\<rparr>\<rparr>]
     = Inr (lit ''Hi'')"
proof -
  have c: "clean_message (lit ''Hi'') = lit ''Hi''"
    by (simp add: clean_message_def trim_def strip_quotes_def is_js_whitespace_def
          is_quote_def lit_def)
  have u: "urgency_of m \<in> set [lit ''low'', lit ''medium'', lit ''high'']" for m
    by (simp add: urgency_of_def)
  show ?thesis
    using u unfolding reminder_text_def generateReminderMessage_def Let_def urgencyLevel_def
    by (simp add: assms c provided_def dedupe_def) (simp add: lit_def)
qed

lemma sample_recent:
  "recent_sms sample_database (lit ''u1'') c = []"
  "recent_sms sample_database (lit ''u3'') 0 \<noteq> []"
  by (simp_all add: recent_sms_def sample_database_def lit_def)

lemma sample_envs:
  "now_start sample_tick_env = 1800000" "now_start refusing_tick_env = 1800000"
  "now_start failing_tick_env = 1800000"
  "cutoff_of sample_tick_env = 0" "cutoff_of refusing_tick_env = 0"
  "cutoff_of failing_tick_env = 0"
  "views_fault sample_tick_env = Healthy" "views_fault refusing_tick_env = Healthy"
  "views_fault failing_tick_env = Healthy"
  "openai sample_tick_env (lit ''u1'') = (\<lambda>n p l k. Inr (lit ''Hi''))"
  "openai refusing_tick_env (lit ''u1'') = (\<lambda>n p l k. Inr (lit ''Hi''))"
  "openai failing_tick_env (lit ''u1'') = (\<lambda>n p l k. Inr (lit ''Hi''))"
  "orders_fault sample_tick_env u = Healthy" "orders_fault refusing_tick_env u = Healthy"
  "insert_fault sample_tick_env u = Healthy"
  "insert_fault failing_tick_env u = Healthy"
  "insert_fault refusing_tick_env u = Fails \<lparr>err_code = ''42501'', err_message = ''denied''\<rparr>"
  by (simp_all add: sample_tick_env_def refusing_tick_env_def failing_tick_env_def cutoff_of_def)

lemma failing_orders:
  "orders_fault failing_tick_env (lit ''u3'') = Throws (Exn ''fetch failed'')"
  "orders_fault failing_tick_env (lit ''u1'') = Healthy"
  by (simp_all add: failing_tick_env_def sample_tick_env_def lit_def)

text \<open>
  Claim C2. A user for whom \<open>messages_sent\<close> holds an sms row sent at or after the
  cutoff is skipped: they get no new row in the run, whatever else happens, and no text
  is generated and no send is logged for them, since every text the run generates or
  logs as a send is the Message Composer's answer for a group whose user has no such
  row; when the batch and the user's reminder lookup are read without fault and the
  user has a view at or after the cutoff and an email, the run logs the skip. A user
  without such a row, under the same conditions, is processed: the Message Composer is
  called for their group, its failure or its text is logged, and the text is recorded
  when the store accepts the insert.
\<close>

theorem cooldown_dedupe:
  "((\<exists>m \<in> set (messages_sent db).
        m_user_id m = u \<and> m_message_type m = lit ''sms'' \<and> cutoff_of env \<le> m_sent_at m) \<longrightarrow>
      messages_of u (ts_db (fst (checkAbandonedCarts env db))) = messages_of u db)
   \<and> (v \<in> set (products_viewed db) \<and> cutoff_of env \<le> v_timestamp v \<and> v_user_id v = Some u
        \<and> lookup_user db u = Some usr \<and> provided (u_email usr) = Some email
        \<and> views_fault env = Healthy \<and> orders_fault env u = Healthy \<longrightarrow>
      ((\<exists>m \<in> set (messages_sent db).
          m_user_id m = u \<and> m_message_type m = lit ''sms'' \<and> cutoff_of env \<le> m_sent_at m) \<longrightarrow>
        Console (SkipRecent email) \<in> set (ts_trace (fst (checkAbandonedCarts env db))))
      \<and> (\<not> (\<exists>m \<in> set (messages_sent db).
          m_user_id m = u \<and> m_message_type m = lit ''sms'' \<and> cutoff_of env \<le> m_sent_at m) \<longrightarrow>
        (\<exists>first rest. (u, first # rest) \<in> set (user_groups env db) \<and>
           (case reminder_text env u email first rest of
              Inl e \<Rightarrow> Console (UserError u e) \<in> set (ts_trace (fst (checkAbandonedCarts env db)))
            | Inr message \<Rightarrow>
                Console (Generated email message)
                  \<in> set (ts_trace (fst (checkAbandonedCarts env db)))
                \<and> (insert_fault env u = Healthy \<longrightarrow>
                     messages_of u (ts_db (fst (checkAbandonedCarts env db))) =
                       messages_of u db @ [sms_row env u message])))))
   \<and> (\<forall>e sms.
        Console (Generated e sms) \<in> set (ts_trace (fst (checkAbandonedCarts env db)))
        \<or> Console (WouldSend e sms) \<in> set (ts_trace (fst (checkAbandonedCarts env db))) \<longrightarrow>
        (\<exists>w first rest. (w, first # rest) \<in> set (user_groups env db)
           \<and> provided (ju_email (jv_users first)) = Some e
           \<and> \<not> (\<exists>m \<in> set (messages_sent db).
                   m_user_id m = w \<and> m_message_type m = lit ''sms'' \<and> cutoff_of env \<le> m_sent_at m)
           \<and> reminder_text env w e first rest = Inr sms))"
proof -
  let ?recent = "\<exists>m \<in> set (messages_sent db).
        m_user_id m = u \<and> m_message_type m = lit ''sms'' \<and> cutoff_of env \<le> m_sent_at m"
  let ?trace = "set (ts_trace (fst (checkAbandonedCarts env db)))"
  let ?after = "messages_of u (ts_db (fst (checkAbandonedCarts env db)))"
  have skip: "?recent \<longrightarrow> ?after = messages_of u db"
  proof
    assume ?recent
    then have "recent_sms db u (cutoff_of env) \<noteq> []"
      by (simp add: recent_sms_conv)
    then show "?after = messages_of u db" by (rule recent_blocks)
  qed
  have turn: "v \<in> set (products_viewed db) \<and> cutoff_of env \<le> v_timestamp v \<and> v_user_id v = Some u
        \<and> lookup_user db u = Some usr \<and> provided (u_email usr) = Some email
        \<and> views_fault env = Healthy \<and> orders_fault env u = Healthy \<longrightarrow>
      (?recent \<longrightarrow> Console (SkipRecent email) \<in> ?trace)
      \<and> (\<not> ?recent \<longrightarrow>
        (\<exists>first rest. (u, first # rest) \<in> set (user_groups env db) \<and>
           (case reminder_text env u email first rest of
              Inl e \<Rightarrow> Console (UserError u e) \<in> ?trace
            | Inr message \<Rightarrow>
                Console (Generated email message) \<in> ?trace
                \<and> (insert_fault env u = Healthy \<longrightarrow>
                     ?after = messages_of u db @ [sms_row env u message]))))"
  proof
    assume hyp: "v \<in> set (products_viewed db) \<and> cutoff_of env \<le> v_timestamp v
        \<and> v_user_id v = Some u
        \<and> lookup_user db u = Some usr \<and> provided (u_email usr) = Some email
        \<and> views_fault env = Healthy \<and> orders_fault env u = Healthy"
    then have h: "v \<in> set (products_viewed db)" "cutoff_of env \<le> v_timestamp v"
      "v_user_id v = Some u" "lookup_user db u = Some usr" "provided (u_email usr) = Some email"
      "views_fault env = Healthy" "orders_fault env u = Healthy"
      by simp_all
    obtain first rest where g: "(u, first # rest) \<in> set (user_groups env db)"
      and e: "provided (ju_email (jv_users first)) = Some email"
      using user_group_exists [OF h(1-4), of] h(5) by auto
    note lines = group_turn [OF h(6) g e]
    note rows = group_rows [OF h(6) g e]
    have a: "Console (SkipRecent email) \<in> ?trace" if ?recent
    proof -
      from that have "recent_sms db u (cutoff_of env) \<noteq> []"
        by (simp add: recent_sms_conv)
      with lines h(7) show ?thesis by blast
    qed
    have b: "case reminder_text env u email first rest of
              Inl e \<Rightarrow> Console (UserError u e) \<in> ?trace
            | Inr message \<Rightarrow>
                Console (Generated email message) \<in> ?trace
                \<and> (insert_fault env u = Healthy \<longrightarrow>
                     ?after = messages_of u db @ [sms_row env u message])"
      if "\<not> ?recent"
    proof -
      from that have none: "recent_sms db u (cutoff_of env) = []"
        using recent_sms_conv [of db u "cutoff_of env"] by blast
      show ?thesis
      proof (cases "reminder_text env u email first rest")
        case (Inl e)
        with lines h(7) none show ?thesis by simp
      next
        case (Inr message)
        with lines h(7) none rows show ?thesis by simp
      qed
    qed
    from a b g show "(?recent \<longrightarrow> Console (SkipRecent email) \<in> ?trace)
      \<and> (\<not> ?recent \<longrightarrow>
        (\<exists>first rest. (u, first # rest) \<in> set (user_groups env db) \<and>
           (case reminder_text env u email first rest of
              Inl e \<Rightarrow> Console (UserError u e) \<in> ?trace
            | Inr message \<Rightarrow>
                Console (Generated email message) \<in> ?trace
                \<and> (insert_fault env u = Healthy \<longrightarrow>
                     ?after = messages_of u db @ [sms_row env u message]))))"
      by blast
  qed
  have origin: "\<forall>e sms.
        Console (Generated e sms) \<in> ?trace \<or> Console (WouldSend e sms) \<in> ?trace \<longrightarrow>
        (\<exists>w first rest. (w, first # rest) \<in> set (user_groups env db)
           \<and> provided (ju_email (jv_users first)) = Some e
           \<and> \<not> (\<exists>m \<in> set (messages_sent db).
                   m_user_id m = w \<and> m_message_type m = lit ''sms'' \<and> cutoff_of env \<le> m_sent_at m)
           \<and> reminder_text env w e first rest = Inr sms)"
  proof (intro allI impI)
    fix e sms
    assume "Console (Generated e sms) \<in> ?trace \<or> Console (WouldSend e sms) \<in> ?trace"
    from generated_origin [OF this] obtain w first rest where
      "(w, first # rest) \<in> set (user_groups env db)"
      "provided (ju_email (jv_users first)) = Some e"
      "recent_sms db w (cutoff_of env) = []" "reminder_text env w e first rest = Inr sms"
      by blast
    moreover from this(3) have "\<not> (\<exists>m \<in> set (messages_sent db).
          m_user_id m = w \<and> m_message_type m = lit ''sms'' \<and> cutoff_of env \<le> m_sent_at m)"
      using recent_sms_conv [of db w "cutoff_of env"] by blast
    ultimately show "\<exists>w first rest. (w, first # rest) \<in> set (user_groups env db)
           \<and> provided (ju_email (jv_users first)) = Some e
           \<and> \<not> (\<exists>m \<in> set (messages_sent db).
                   m_user_id m = w \<and> m_message_type m = lit ''sms'' \<and> cutoff_of env \<le> m_sent_at m)
           \<and> reminder_text env w e first rest = Inr sms"
      by blast
  qed
  show ?thesis
    by (rule conjI [OF skip conjI [OF turn origin]])
qed

lemma sample_facts:
  "\<lparr>v_id = lit ''v5'', v_user_id = Some (lit ''u3''), v_product_id = lit ''p1'',
    v_product_name = lit ''Widget'', v_timestamp = 1500000\<rparr> \<in> set (products_viewed sample_database)"
  "\<lparr>v_id = lit ''v1'', v_user_id = Some (lit ''u1''), v_product_id = lit ''p1'',
    v_product_name = lit ''Widget'', v_timestamp = 0\<rparr> \<in> set (products_viewed sample_database)"
  "lookup_user sample_database (lit ''u3'') =
     Some \<lparr>u_id = lit ''u3'', u_email = Some (lit ''b@x.com''), u_full_name = Some (lit ''Bob'')\<rparr>"
  "lookup_user sample_database (lit ''u1'') =
     Some \<lparr>u_id = lit ''u1'', u_email = Some (lit ''a@x.com''), u_full_name = None\<rparr>"
  "provided (Some (lit ''b@x.com'')) = Some (lit ''b@x.com'')"
  "provided (Some (lit ''a@x.com'')) = Some (lit ''a@x.com'')"
  "\<exists>m \<in> set (messages_sent sample_database).
      m_user_id m = lit ''u3'' \<and> m_message_type m = lit ''sms'' \<and> 0 \<le> m_sent_at m"
  "\<not> (\<exists>m \<in> set (messages_sent sample_database).
      m_user_id m = lit ''u1'' \<and> m_message_type m = lit ''sms'' \<and> 0 \<le> m_sent_at m)"
  by (simp_all add: sample_database_def lookup_user_def provided_def lit_def)

lemma sample_group_u1:
  assumes "now_start env = 1800000" and "(lit ''u1'', first # rest) \<in> set (user_groups env sample_database)"
  shows "first = \<lparr>jv_id = lit ''v2'', jv_user_id = lit ''u1'', jv_product_id = lit ''p2'',
        jv_product_name = lit ''Gadget'', jv_timestamp = 120000,
        jv_users = \<lparr>ju_email = Some (lit ''a@x.com''), ju_full_name = None\<rparr>\<rparr>
     \<and> rest = [\<lparr>jv_id = lit ''v1'', jv_user_id = lit ''u1'', jv_product_id = lit ''p1'',
        jv_product_name = lit ''Widget'', jv_timestamp = 0,
        jv_users = \<lparr>ju_email = Some (lit ''a@x.com''), ju_full_name = None\<rparr>\<rparr>]"
proof -
  have ne: "lit ''u1'' \<noteq> lit ''u3''" "lit ''u1'' \<noteq> lit ''u2''"
    by (simp_all add: lit_def)
  from assms(2) show ?thesis
    unfolding sample_user_groups [OF assms(1)] using ne by auto
qed

lemma sample_group_members:
  assumes "now_start env = 1800000"
  shows "(lit ''u1'',
       \<lparr>jv_id = lit ''v2'', jv_user_id = lit ''u1'', jv_product_id = lit ''p2'',
        jv_product_name = lit ''Gadget'', jv_timestamp = 120000,
        jv_users = \<lparr>ju_email = Some (lit ''a@x.com''), ju_full_name = None\<rparr>\<rparr>
       # [\<lparr>jv_id = lit ''v1'', jv_user_id = lit ''u1'', jv_product_id = lit ''p1'',
        jv_product_name = lit ''Widget'', jv_timestamp = 0,
        jv_users = \<lparr>ju_email = Some (lit ''a@x.com''), ju_full_name = None\<rparr>\<rparr>])
      \<in> set (user_groups env sample_database)"
    and "(lit ''u3'',
       \<lparr>jv_id = lit ''v5'', jv_user_id = lit ''u3'', jv_product_id = lit ''p1'',
        jv_product_name = lit ''Widget'', jv_timestamp = 1500000,
        jv_users = \<lparr>ju_email = Some (lit ''b@x.com''), ju_full_name = Some (lit ''Bob'')\<rparr>\<rparr> # [])
      \<in> set (user_groups env sample_database)"
  unfolding sample_user_groups [OF assms] by simp_all

text \<open>
  The sample run: the third user was reminded after the cutoff and is skipped, with no
  text generated and no send logged for their address; the first user was not and is
  processed.
\<close>

theorem cooldown_dedupe_witness:
  "messages_of (lit ''u3'') (ts_db (fst (checkAbandonedCarts sample_tick_env sample_database)))
     = messages_of (lit ''u3'') sample_database
   \<and> Console (SkipRecent (lit ''b@x.com''))
       \<in> set (ts_trace (fst (checkAbandonedCarts sample_tick_env sample_database)))
   \<and> Console (Generated (lit ''a@x.com'') (lit ''Hi''))
       \<in> set (ts_trace (fst (checkAbandonedCarts sample_tick_env sample_database)))
   \<and> messages_of (lit ''u1'') (ts_db (fst (checkAbandonedCarts sample_tick_env sample_database)))
     = messages_of (lit ''u1'') sample_database @
         [\<lparr>m_id = lit ''m1'', m_user_id = lit ''u1'', m_message_type = lit ''sms'',
           m_content = lit ''Hi'', m_sent_at = 1801000\<rparr>]
   \<and> Console (Generated (lit ''b@x.com'') (lit ''Hi''))
       \<notin> set (ts_trace (fst (checkAbandonedCarts sample_tick_env sample_database)))
   \<and> Console (WouldSend (lit ''b@x.com'') (lit ''Hi''))
       \<notin> set (ts_trace (fst (checkAbandonedCarts sample_tick_env sample_database)))"
proof -
  have silent: "Console (Generated (lit ''b@x.com'') (lit ''Hi''))
       \<notin> set (ts_trace (fst (checkAbandonedCarts sample_tick_env sample_database)))
   \<and> Console (WouldSend (lit ''b@x.com'') (lit ''Hi''))
       \<notin> set (ts_trace (fst (checkAbandonedCarts sample_tick_env sample_database)))"
  proof (rule ccontr)
    assume "\<not> ?thesis"
    then have "Console (Generated (lit ''b@x.com'') (lit ''Hi''))
         \<in> set (ts_trace (fst (checkAbandonedCarts sample_tick_env sample_database)))
       \<or> Console (WouldSend (lit ''b@x.com'') (lit ''Hi''))
         \<in> set (ts_trace (fst (checkAbandonedCarts sample_tick_env sample_database)))"
      by blast
    with cooldown_dedupe [of sample_database "lit ''u3''" sample_tick_env
        "\<lparr>v_id = lit ''v5'', v_user_id = Some (lit ''u3''), v_product_id = lit ''p1'',
          v_product_name = lit ''Widget'', v_timestamp = 1500000\<rparr>"
        "\<lparr>u_id = lit ''u3'', u_email = Some (lit ''b@x.com''), u_full_name = Some (lit ''Bob'')\<rparr>"
        "lit ''b@x.com''"]
    obtain w first rest where
      g: "(w, first # rest) \<in> set (user_groups sample_tick_env sample_database)"
      and e: "provided (ju_email (jv_users first)) = Some (lit ''b@x.com'')"
      and r: "\<not> (\<exists>m \<in> set (messages_sent sample_database).
                 m_user_id m = w \<and> m_message_type m = lit ''sms''
                 \<and> cutoff_of sample_tick_env \<le> m_sent_at m)"
      by blast
    from g e have "w = lit ''u3''"
      unfolding sample_user_groups [OF sample_envs(1)]
      by (auto simp: provided_def lit_def)
    with r sample_facts(7) show False
      by (simp add: sample_envs)
  qed
  have third: "messages_of (lit ''u3'')
        (ts_db (fst (checkAbandonedCarts sample_tick_env sample_database)))
      = messages_of (lit ''u3'') sample_database
    \<and> Console (SkipRecent (lit ''b@x.com''))
       \<in> set (ts_trace (fst (checkAbandonedCarts sample_tick_env sample_database)))"
    using cooldown_dedupe [of sample_database "lit ''u3''" sample_tick_env
        "\<lparr>v_id = lit ''v5'', v_user_id = Some (lit ''u3''), v_product_id = lit ''p1'',
          v_product_name = lit ''Widget'', v_timestamp = 1500000\<rparr>"
        "\<lparr>u_id = lit ''u3'', u_email = Some (lit ''b@x.com''), u_full_name = Some (lit ''Bob'')\<rparr>"
        "lit ''b@x.com''"]
      sample_facts
    by (simp add: sample_envs)
  obtain first rest where g: "(lit ''u1'', first # rest) \<in> set (user_groups sample_tick_env sample_database)"
    and c: "case reminder_text sample_tick_env (lit ''u1'') (lit ''a@x.com'') first rest of
              Inl e \<Rightarrow> Console (UserError (lit ''u1'') e)
                  \<in> set (ts_trace (fst (checkAbandonedCarts sample_tick_env sample_database)))
            | Inr message \<Rightarrow>
                Console (Generated (lit ''a@x.com'') message)
                  \<in> set (ts_trace (fst (checkAbandonedCarts sample_tick_env sample_database)))
                \<and> (insert_fault sample_tick_env (lit ''u1'') = Healthy \<longrightarrow>
                     messages_of (lit ''u1'')
                       (ts_db (fst (checkAbandonedCarts sample_tick_env sample_database))) =
                       messages_of (lit ''u1'') sample_database
                         @ [sms_row sample_tick_env (lit ''u1'') message])"
    using cooldown_dedupe [of sample_database "lit ''u1''" sample_tick_env
        "\<lparr>v_id = lit ''v1'', v_user_id = Some (lit ''u1''), v_product_id = lit ''p1'',
          v_product_name = lit ''Widget'', v_timestamp = 0\<rparr>"
        "\<lparr>u_id = lit ''u1'', u_email = Some (lit ''a@x.com''), u_full_name = None\<rparr>"
        "lit ''a@x.com''"]
      sample_facts
    by (auto simp: sample_envs)
  have row: "sms_row sample_tick_env (lit ''u1'') (lit ''Hi'') =
      \<lparr>m_id = lit ''m1'', m_user_id = lit ''u1'', m_message_type = lit ''sms'',
           m_content = lit ''Hi'', m_sent_at = 1801000\<rparr>"
    by (simp add: sms_row_def sample_tick_env_def)
  from sample_group_u1 [OF sample_envs(1) g] c
  have "Console (Generated (lit ''a@x.com'') (lit ''Hi''))
       \<in> set (ts_trace (fst (checkAbandonedCarts sample_tick_env sample_database)))
     \<and> messages_of (lit ''u1'') (ts_db (fst (checkAbandonedCarts sample_tick_env sample_database)))
       = messages_of (lit ''u1'') sample_database @
         [\<lparr>m_id = lit ''m1'', m_user_id = lit ''u1'', m_message_type = lit ''sms'',
           m_content = lit ''Hi'', m_sent_at = 1801000\<rparr>]"
    by (simp add: sample_reminder_text [OF sample_envs(10)] sample_envs row)
  with third silent show ?thesis by simp
qed

lemma sample_u1_turn:
  assumes "now_start env = 1800000" and "views_fault env = Healthy"
    and "openai env (lit ''u1'') = (\<lambda>n p l k. Inr (lit ''Hi''))"
    and "orders_fault env (lit ''u1'') = Healthy"
  shows "Console (Generated (lit ''a@x.com'') (lit ''Hi''))
       \<in> set (ts_trace (fst (checkAbandonedCarts env sample_database)))"
proof -
  have c: "recent_sms sample_database (lit ''u1'') (cutoff_of env) = []"
    by (rule sample_recent)
  from group_turn [OF assms(2) sample_group_members(1) [OF assms(1)], of "lit ''a@x.com''"]
  show ?thesis
    by (simp add: sample_facts assms(4) c sample_reminder_text [OF assms(3)])
qed





text \<open>
  Claim C10. The function never lets an exception reach its caller. A batch that
  cannot be fetched ends the run with the failure logged and nothing else done. In a
  run whose batch is fetched, every group with an email gets its turn whatever happened
  in the turns of the other users: a reminder lookup that throws or fails, a Message
  Composer that throws and an insert that throws or is refused are each logged for that
  user, and a user for whom nothing fails has their reminder recorded.
\<close>

theorem tick_never_throws:
  "snd (checkAbandonedCarts env db) = None
   \<and> (\<forall>err. views_fault env = Fails err \<longrightarrow>
        fst (checkAbandonedCarts env db) =
          \<lparr>ts_db = db, ts_trace = [Console Checking, Console (FetchError err)],
           processedCount = 0, sentCount = 0\<rparr>)
   \<and> (\<forall>e. views_fault env = Throws e \<longrightarrow>
        fst (checkAbandonedCarts env db) =
          \<lparr>ts_db = db, ts_trace = [Console Checking, Console (TickError e)],
           processedCount = 0, sentCount = 0\<rparr>)
   \<and> (views_fault env = Healthy \<and> (u, first # rest) \<in> set (user_groups env db)
        \<and> provided (ju_email (jv_users first)) = Some email \<longrightarrow>
        (\<forall>e. orders_fault env u = Throws e \<longrightarrow>
           Console (UserError u e) \<in> set (ts_trace (fst (checkAbandonedCarts env db))))
      \<and> (\<forall>err. orders_fault env u = Fails err \<longrightarrow>
           Console (OrdersError u err) \<in> set (ts_trace (fst (checkAbandonedCarts env db))))
      \<and> (orders_fault env u = Healthy \<and> recent_sms db u (cutoff_of env) = [] \<longrightarrow>
           (\<forall>e. reminder_text env u email first rest = Inl e \<longrightarrow>
              Console (UserError u e) \<in> set (ts_trace (fst (checkAbandonedCarts env db))))
         \<and> (\<forall>message. reminder_text env u email first rest = Inr message \<longrightarrow>
              (\<forall>e. insert_fault env u = Throws e \<longrightarrow>
                 Console (UserError u e) \<in> set (ts_trace (fst (checkAbandonedCarts env db))))
            \<and> (\<forall>err. insert_fault env u = Fails err \<longrightarrow>
                 Console (LogError u err) \<in> set (ts_trace (fst (checkAbandonedCarts env db))))
            \<and> (insert_fault env u = Healthy \<longrightarrow>
                 sms_row env u message
                   \<in> set (messages_sent (ts_db (fst (checkAbandonedCarts env db))))))))"
proof -
  have turn:
    "(\<forall>e. orders_fault env u = Throws e \<longrightarrow>
           Console (UserError u e) \<in> set (ts_trace (fst (checkAbandonedCarts env db))))
      \<and> (\<forall>err. orders_fault env u = Fails err \<longrightarrow>
           Console (OrdersError u err) \<in> set (ts_trace (fst (checkAbandonedCarts env db))))
      \<and> (orders_fault env u = Healthy \<and> recent_sms db u (cutoff_of env) = [] \<longrightarrow>
           (\<forall>e. reminder_text env u email first rest = Inl e \<longrightarrow>
              Console (UserError u e) \<in> set (ts_trace (fst (checkAbandonedCarts env db))))
         \<and> (\<forall>message. reminder_text env u email first rest = Inr message \<longrightarrow>
              (\<forall>e. insert_fault env u = Throws e \<longrightarrow>
                 Console (UserError u e) \<in> set (ts_trace (fst (checkAbandonedCarts env db))))
            \<and> (\<forall>err. insert_fault env u = Fails err \<longrightarrow>
                 Console (LogError u err) \<in> set (ts_trace (fst (checkAbandonedCarts env db))))
            \<and> (insert_fault env u = Healthy \<longrightarrow>
                 sms_row env u message
                   \<in> set (messages_sent (ts_db (fst (checkAbandonedCarts env db)))))))"
    if h: "views_fault env = Healthy" "(u, first # rest) \<in> set (user_groups env db)"
      "provided (ju_email (jv_users first)) = Some email"
  proof -
    have rec: "sms_row env u message
        \<in> set (messages_sent (ts_db (fst (checkAbandonedCarts env db))))"
      if "orders_fault env u = Healthy" "recent_sms db u (cutoff_of env) = []"
        "reminder_text env u email first rest = Inr message" "insert_fault env u = Healthy"
      for message
    proof -
      have "sms_row env u message
          \<in> set (messages_of u (ts_db (fst (checkAbandonedCarts env db))))"
        using group_rows [OF h] that by simp
      then show ?thesis by (simp add: messages_of_def)
    qed
    from group_turn [OF h] rec show ?thesis by blast
  qed
  from tick_returns [of env db] tick_state_failed [of env db] turn show ?thesis
    by blast
qed

text \<open>
  The reminder lookup throws for the third user, whose group comes first: the failure
  is logged and the first user, whose group comes last, has their reminder recorded.
\<close>

theorem tick_never_throws_witness:
  "snd (checkAbandonedCarts failing_tick_env sample_database) = None
   \<and> Console (UserError (lit ''u3'') (Exn ''fetch failed''))
       \<in> set (ts_trace (fst (checkAbandonedCarts failing_tick_env sample_database)))
   \<and> \<lparr>m_id = lit ''m1'', m_user_id = lit ''u1'', m_message_type = lit ''sms'',
        m_content = lit ''Hi'', m_sent_at = 1801000\<rparr>
       \<in> set (messages_sent (ts_db (fst (checkAbandonedCarts failing_tick_env sample_database))))"
proof -
  have row: "sms_row failing_tick_env (lit ''u1'') (lit ''Hi'') =
      \<lparr>m_id = lit ''m1'', m_user_id = lit ''u1'', m_message_type = lit ''sms'',
           m_content = lit ''Hi'', m_sent_at = 1801000\<rparr>"
    by (simp add: sms_row_def failing_tick_env_def sample_tick_env_def)
  have third: "snd (checkAbandonedCarts failing_tick_env sample_database) = None
   \<and> Console (UserError (lit ''u3'') (Exn ''fetch failed''))
       \<in> set (ts_trace (fst (checkAbandonedCarts failing_tick_env sample_database)))"
    using tick_never_throws
      [where env = failing_tick_env and db = sample_database and u = "lit ''u3''"
         and email = "lit ''b@x.com''" and rest = "[]"
         and first = "\<lparr>jv_id = lit ''v5'', jv_user_id = lit ''u3'', jv_product_id = lit ''p1'',
          jv_product_name = lit ''Widget'', jv_timestamp = 1500000,
          jv_users = \<lparr>ju_email = Some (lit ''b@x.com''), ju_full_name = Some (lit ''Bob'')\<rparr>\<rparr>"]
      sample_group_members(2) [OF sample_envs(3)]
    by (simp add: sample_envs sample_facts failing_orders)
  have first: "sms_row failing_tick_env (lit ''u1'') (lit ''Hi'')
       \<in> set (messages_sent (ts_db (fst (checkAbandonedCarts failing_tick_env sample_database))))"
    using tick_never_throws
      [where env = failing_tick_env and db = sample_database and u = "lit ''u1''"
         and email = "lit ''a@x.com''"
         and first = "\<lparr>jv_id = lit ''v2'', jv_user_id = lit ''u1'', jv_product_id = lit ''p2'',
          jv_product_name = lit ''Gadget'', jv_timestamp = 120000,
          jv_users = \<lparr>ju_email = Some (lit ''a@x.com''), ju_full_name = None\<rparr>\<rparr>"
         and rest = "[\<lparr>jv_id = lit ''v1'', jv_user_id = lit ''u1'', jv_product_id = lit ''p1'',
          jv_product_name = lit ''Widget'', jv_timestamp = 0,
          jv_users = \<lparr>ju_email = Some (lit ''a@x.com''), ju_full_name = None\<rparr>\<rparr>]"]
      sample_group_members(1) [OF sample_envs(3)]
    by (simp add: sample_envs sample_facts failing_orders sample_recent
          sample_reminder_text [OF sample_envs(12)])
  from third first show ?thesis
    by (simp add: row)
qed

section \<open>Views without a deliverable user\<close>

lemma lookup_user_users: "users db' = users db \<Longrightarrow> lookup_user db' = lookup_user db"
  by (rule ext) (simp add: lookup_user_def)

lemma join_view_users:
  assumes "users db' = users db"
  shows "join_view db' v = join_view db v"
proof -
  have l: "lookup_user db' = lookup_user db"
    by (rule lookup_user_users [OF assms])
  show ?thesis unfolding join_view_def l ..
qed

lemma join_view_deliverable:
  "join_view db v = Some jv \<Longrightarrow> user_has_email db (jv_user_id jv) = has_deliverable_user db v"
  by (auto simp: join_view_def has_deliverable_user_def split: option.splits)

lemma join_view_None: "join_view db v = None \<Longrightarrow> \<not> has_deliverable_user db v"
  by (auto simp: join_view_def has_deliverable_user_def user_has_email_def split: option.splits)

lemma map_filter_deliverable:
  "filter (\<lambda>jv. user_has_email db (jv_user_id jv)) (List.map_filter (join_view db) vs) =
     List.map_filter (join_view db) (filter (has_deliverable_user db) vs)"
proof (induction vs)
  case Nil
  show ?case by (simp add: List.map_filter_simps)
next
  case (Cons v vs)
  show ?case
  proof (cases "join_view db v")
    case None
    then show ?thesis
      using Cons join_view_None [OF None] by (simp add: List.map_filter_simps)
  next
    case (Some jv)
    then show ?thesis
      using Cons join_view_deliverable [OF Some] by (simp add: List.map_filter_simps)
  qed
qed

lemma fetch_deliverable:
  "filter (\<lambda>jv. user_has_email db (jv_user_id jv)) (fetch_recent_views db c) =
     rev (sort_key jv_timestamp (List.map_filter (join_view db)
       (filter (\<lambda>v. has_deliverable_user db v \<and> c \<le> v_timestamp v) (products_viewed db))))"
  by (simp add: fetch_recent_views_def rev_filter [symmetric] filter_sort map_filter_deliverable
        conj_commute)

lemma fetch_without_undeliverable:
  assumes "db' = db\<lparr>products_viewed :=
      filter (\<lambda>v. has_deliverable_user db v \<or> keep v) (products_viewed db)\<rparr>"
  shows "filter (\<lambda>jv. user_has_email db (jv_user_id jv)) (fetch_recent_views db' c) =
     filter (\<lambda>jv. user_has_email db (jv_user_id jv)) (fetch_recent_views db c)"
proof -
  have u: "users db' = users db" by (simp add: assms)
  have j: "join_view db' = join_view db"
    by (rule ext) (rule join_view_users [OF u])
  have l: "lookup_user db' = lookup_user db"
    by (rule lookup_user_users [OF u])
  have e: "user_has_email db' = user_has_email db"
    unfolding user_has_email_def l ..
  have h: "has_deliverable_user db' = has_deliverable_user db"
    unfolding has_deliverable_user_def e ..
  have "filter (\<lambda>jv. user_has_email db' (jv_user_id jv)) (fetch_recent_views db' c) =
     rev (sort_key jv_timestamp (List.map_filter (join_view db')
       (filter (\<lambda>v. has_deliverable_user db' v \<and> c \<le> v_timestamp v) (products_viewed db'))))"
    by (rule fetch_deliverable)
  also have "filter (\<lambda>v. has_deliverable_user db' v \<and> c \<le> v_timestamp v) (products_viewed db')
      = filter (\<lambda>v. has_deliverable_user db v \<and> c \<le> v_timestamp v) (products_viewed db)"
    unfolding h by (auto simp: assms intro: filter_cong)
  finally show ?thesis
    unfolding j e by (simp add: fetch_deliverable)
qed

lemma concat_map_filter_nonempty:
  "(\<And>g. g \<in> set gs \<Longrightarrow> \<not> P g \<Longrightarrow> f g = []) \<Longrightarrow>
     concat (map f gs) = concat (map f (filter P gs))"
  by (induction gs) auto

lemma rows_due_no_email:
  assumes "(u, views) \<in> set (user_groups env dbx)" and "users dbx = users db"
    and "\<not> user_has_email db u"
  shows "rows_due env c db (u, views) = []"
proof -
  from user_group_member [OF assms(1)] obtain first rest usr where
    v: "views = first # rest" and l: "lookup_user dbx u = Some usr"
    and j: "jv_users first = \<lparr>ju_email = u_email usr, ju_full_name = u_full_name usr\<rparr>"
    by blast
  have "lookup_user db u = Some usr"
    using l assms(2) by (simp add: lookup_user_def)
  with assms(3) have "provided (u_email usr) = None"
    by (simp add: user_has_email_def)
  then show ?thesis
    by (simp add: v rows_due_Cons j)
qed

lemma rows_of_groups_with_email:
  assumes "users dbx = users db"
  shows "concat (map (rows_due env c db) (user_groups env dbx)) =
     concat (map (rows_due env c db)
       (group_views (filter (\<lambda>jv. user_has_email db (jv_user_id jv))
          (fetch_recent_views dbx (cutoff_of env)))))"
proof -
  have "concat (map (rows_due env c db) (user_groups env dbx)) =
     concat (map (rows_due env c db)
       (filter (\<lambda>g. user_has_email db (fst g)) (user_groups env dbx)))"
  proof (rule concat_map_filter_nonempty)
    fix g
    assume g: "g \<in> set (user_groups env dbx)" and n: "\<not> user_has_email db (fst g)"
    show "rows_due env c db g = []"
      using rows_due_no_email [of "fst g" "snd g" env dbx db c] g n assms by simp
  qed
  then show ?thesis
    by (simp add: user_groups_def group_views_filter)
qed

lemma tick_without_undeliverable:
  "messages_sent (ts_db (fst (checkAbandonedCarts env
       (db\<lparr>products_viewed :=
            filter (\<lambda>v. has_deliverable_user db v \<or> keep v) (products_viewed db)\<rparr>)))) =
   messages_sent (ts_db (fst (checkAbandonedCarts env db)))"
proof -
  let ?db' = "db\<lparr>products_viewed :=
      filter (\<lambda>v. has_deliverable_user db v \<or> keep v) (products_viewed db)\<rparr>"
  let ?c = "cutoff_of env"
  have r: "rows_due env ?c ?db' = rows_due env ?c db"
    by (rule ext) (rule rows_due_cong, simp add: recent_sms_def)
  have "concat (map (rows_due env ?c db) (user_groups env ?db')) =
      concat (map (rows_due env ?c db) (user_groups env db))"
    using rows_of_groups_with_email [of ?db' db env ?c]
      rows_of_groups_with_email [of db db env ?c]
      fetch_without_undeliverable [of ?db' db keep ?c]
    by simp
  then show ?thesis
    by (simp add: tick_db r)
qed

lemma undeliverable_user_untouched:
  assumes "v \<in> set (products_viewed db)" and "\<not> has_deliverable_user db v"
    and "v_user_id v = Some u"
  shows "messages_of u (ts_db (fst (checkAbandonedCarts env db))) = messages_of u db"
proof (cases "views_fault env = Healthy \<and> u \<in> fst ` set (user_groups env db)")
  case True
  then obtain views where g: "(u, views) \<in> set (user_groups env db)" by auto
  have "\<not> user_has_email db u"
    using assms(2,3) by (simp add: has_deliverable_user_def)
  then have "rows_due env (cutoff_of env) db (u, views) = []"
    using rows_due_no_email [OF g] by simp
  with True g show ?thesis
    using tick_messages_of_group [of env u views db] by simp
next
  case False
  then show ?thesis
    by (auto simp: tick_messages_of rows_of_absent_user)
qed

lemma reminder_lines_no_email:
  assumes "(u, views) \<in> set (user_groups env dbx)" and "users dbx = users db"
    and "\<not> user_has_email db u"
  shows "reminder_lines (user_lines env c db (u, views)) = []"
proof -
  from user_group_member [OF assms(1)] obtain first rest usr where
    v: "views = first # rest" and l: "lookup_user dbx u = Some usr"
    and j: "jv_users first = \<lparr>ju_email = u_email usr, ju_full_name = u_full_name usr\<rparr>"
    by blast
  have "lookup_user db u = Some usr"
    using l assms(2) by (simp add: lookup_user_def)
  with assms(3) have "provided (u_email usr) = None"
    by (simp add: user_has_email_def)
  then show ?thesis
    by (simp add: v user_lines_Cons j reminder_lines_def)
qed

lemma reminder_lines_of_groups_with_email:
  assumes "users dbx = users db"
  shows "concat (map (\<lambda>g. reminder_lines (user_lines env c db g)) (user_groups env dbx)) =
     concat (map (\<lambda>g. reminder_lines (user_lines env c db g))
       (group_views (filter (\<lambda>jv. user_has_email db (jv_user_id jv))
          (fetch_recent_views dbx (cutoff_of env)))))"
proof -
  have "concat (map (\<lambda>g. reminder_lines (user_lines env c db g)) (user_groups env dbx)) =
     concat (map (\<lambda>g. reminder_lines (user_lines env c db g))
       (filter (\<lambda>g. user_has_email db (fst g)) (user_groups env dbx)))"
  proof (rule concat_map_filter_nonempty)
    fix g
    assume g: "g \<in> set (user_groups env dbx)" and n: "\<not> user_has_email db (fst g)"
    show "reminder_lines (user_lines env c db g) = []"
      using reminder_lines_no_email [of "fst g" "snd g" env dbx db c] g n assms by simp
  qed
  then show ?thesis
    by (simp add: user_groups_def group_views_filter)
qed

lemma tick_reminder_lines:
  "reminder_lines (ts_trace (fst (checkAbandonedCarts env db))) =
     (if views_fault env = Healthy
      then concat (map (\<lambda>g. reminder_lines (user_lines env (cutoff_of env) db g))
             (user_groups env db))
      else [])"
proof -
  obtain a b where t: "ts_trace (fst (checkAbandonedCarts env db)) =
     (case views_fault env of
        Throws e \<Rightarrow> [Console Checking, Console (TickError e)]
      | Fails err \<Rightarrow> [Console Checking, Console (FetchError err)]
      | Healthy \<Rightarrow>
          if fetch_recent_views db (cutoff_of env) = []
          then [Console Checking, Console NoRecentViews]
          else [Console Checking,
                Console (FoundViews (length (fetch_recent_views db (cutoff_of env))))] @
               concat (map (user_lines env (cutoff_of env) db) (user_groups env db)) @
               [Console (Summary a b)])"
    using tick_trace_full [of env db] by blast
  have f: "reminder_lines (concat xs) = concat (map reminder_lines xs)" for xs
    unfolding reminder_lines_def by (induction xs) simp_all
  show ?thesis
  proof (cases "views_fault env")
    case Healthy
    show ?thesis
    proof (cases "fetch_recent_views db (cutoff_of env) = []")
      case True
      with Healthy show ?thesis
        unfolding t by (simp add: reminder_lines_def user_groups_def group_views_def)
    next
      case False
      have "reminder_lines (ts_trace (fst (checkAbandonedCarts env db))) =
          reminder_lines (concat (map (user_lines env (cutoff_of env) db) (user_groups env db)))"
        unfolding t using Healthy False by (simp add: reminder_lines_def)
      with Healthy show ?thesis
        by (simp add: f comp_def)
    qed
  next
    case (Fails err)
    then show ?thesis unfolding t by (simp add: reminder_lines_def)
  next
    case (Throws e)
    then show ?thesis unfolding t by (simp add: reminder_lines_def)
  qed
qed

lemma trace_without_undeliverable:
  "reminder_lines (ts_trace (fst (checkAbandonedCarts env
       (db\<lparr>products_viewed :=
            filter (\<lambda>v. has_deliverable_user db v \<or> keep v) (products_viewed db)\<rparr>)))) =
   reminder_lines (ts_trace (fst (checkAbandonedCarts env db)))"
proof -
  let ?db' = "db\<lparr>products_viewed :=
      filter (\<lambda>v. has_deliverable_user db v \<or> keep v) (products_viewed db)\<rparr>"
  let ?c = "cutoff_of env"
  have r: "user_lines env ?c ?db' = user_lines env ?c db"
    by (rule ext) (rule user_lines_cong, simp add: recent_sms_def)
  have "concat (map (\<lambda>g. reminder_lines (user_lines env ?c db g)) (user_groups env ?db')) =
      concat (map (\<lambda>g. reminder_lines (user_lines env ?c db g)) (user_groups env db))"
    using reminder_lines_of_groups_with_email [of ?db' db env ?c]
      reminder_lines_of_groups_with_email [of db db env ?c]
      fetch_without_undeliverable [of ?db' db keep ?c]
    by simp
  then show ?thesis
    by (simp add: tick_reminder_lines r)
qed

lemma group_of_deliverable_views:
  assumes g: "(u, first # rest) \<in> set (user_groups env db)"
    and e: "provided (ju_email (jv_users first)) = Some email"
  shows "\<exists>usr. lookup_user db u = Some usr \<and> provided (u_email usr) = Some email
     \<and> (\<forall>jv \<in> set (first # rest). \<exists>x \<in> set (products_viewed db).
           cutoff_of env \<le> v_timestamp x \<and> v_user_id x = Some u
           \<and> has_deliverable_user db x \<and> join_view db x = Some jv)"
proof -
  from user_group_member [OF g] obtain usr where l: "lookup_user db u = Some usr"
    and j: "jv_users first = \<lparr>ju_email = u_email usr, ju_full_name = u_full_name usr\<rparr>"
    by blast
  from e j have p: "provided (u_email usr) = Some email" by simp
  with l have h: "user_has_email db u" by (simp add: user_has_email_def)
  have "\<exists>x \<in> set (products_viewed db).
           cutoff_of env \<le> v_timestamp x \<and> v_user_id x = Some u
           \<and> has_deliverable_user db x \<and> join_view db x = Some jv"
    if "jv \<in> set (first # rest)" for jv
  proof -
    from group_member_all [OF g [unfolded user_groups_def] that]
    have m: "jv \<in> set (fetch_recent_views db (cutoff_of env))" and i: "jv_user_id jv = u"
      by simp_all
    from m obtain x where x: "x \<in> set (products_viewed db)" "cutoff_of env \<le> v_timestamp x"
      "join_view db x = Some jv"
      unfolding set_fetch_recent_views by blast
    from join_view_Some [OF x(3)] i have "v_user_id x = Some u" by auto
    moreover from join_view_deliverable [OF x(3)] i h have "has_deliverable_user db x" by simp
    ultimately show ?thesis using x by blast
  qed
  with l p show ?thesis by blast
qed

lemma skip_no_email_logged:
  assumes "v \<in> set (products_viewed db)" and "cutoff_of env \<le> v_timestamp v"
    and "v_user_id v = Some u" and "lookup_user db u = Some usr"
    and "provided (u_email usr) = None" and "views_fault env = Healthy"
  shows "Console (SkipNoEmail u) \<in> set (ts_trace (fst (checkAbandonedCarts env db)))"
proof -
  obtain first rest where g: "(u, first # rest) \<in> set (user_groups env db)"
    and j: "jv_users first = \<lparr>ju_email = u_email usr, ju_full_name = u_full_name usr\<rparr>"
    using user_group_exists [OF assms(1-4)] by blast
  have "Console (SkipNoEmail u) \<in> set (user_lines env (cutoff_of env) db (u, first # rest))"
    by (simp add: user_lines_Cons j assms(5))
  with tick_trace [OF assms(6) g] show ?thesis by blast
qed

text \<open>
  Claim C4. A view whose user reference is null or names no user, or whose user has no
  email, never contributes to a reminder, however recent it is. The rows in
  \<open>messages_sent\<close> after a run, and the lines of the run that report a text
  generated, a send logged or a reminder recorded, are the same as in the run on the
  database from which any such views have been removed (all of them, or any choice of
  them); the user such a view refers to, if any, gets no new row. Every text the run
  generates or logs as a send is the Message Composer's answer for a group whose user
  has the email the line names and whose views all come from views at or after the
  cutoff with a deliverable user. A view at or after the cutoff whose user has no email
  has its user logged as skipped (line 645), when the batch is fetched.
\<close>

theorem undeliverable_views_never_contribute:
  "messages_sent (ts_db (fst (checkAbandonedCarts env
       (db\<lparr>products_viewed :=
            filter (\<lambda>v. has_deliverable_user db v \<or> keep v) (products_viewed db)\<rparr>)))) =
   messages_sent (ts_db (fst (checkAbandonedCarts env db)))
   \<and> (v \<in> set (products_viewed db) \<and> \<not> has_deliverable_user db v \<and> v_user_id v = Some u \<longrightarrow>
        messages_of u (ts_db (fst (checkAbandonedCarts env db))) = messages_of u db)
   \<and> reminder_lines (ts_trace (fst (checkAbandonedCarts env
       (db\<lparr>products_viewed :=
            filter (\<lambda>v. has_deliverable_user db v \<or> keep v) (products_viewed db)\<rparr>)))) =
     reminder_lines (ts_trace (fst (checkAbandonedCarts env db)))
   \<and> (\<forall>e m. Console (Generated e m) \<in> set (ts_trace (fst (checkAbandonedCarts env db)))
        \<or> Console (WouldSend e m) \<in> set (ts_trace (fst (checkAbandonedCarts env db))) \<longrightarrow>
        (\<exists>w first rest usr. (w, first # rest) \<in> set (user_groups env db)
           \<and> lookup_user db w = Some usr \<and> provided (u_email usr) = Some e
           \<and> reminder_text env w e first rest = Inr m
           \<and> (\<forall>jv \<in> set (first # rest). \<exists>x \<in> set (products_viewed db).
                 cutoff_of env \<le> v_timestamp x \<and> v_user_id x = Some w
                 \<and> has_deliverable_user db x \<and> join_view db x = Some jv)))
   \<and> (v \<in> set (products_viewed db) \<and> cutoff_of env \<le> v_timestamp v \<and> v_user_id v = Some u
        \<and> lookup_user db u = Some usr \<and> provided (u_email usr) = None
        \<and> views_fault env = Healthy \<longrightarrow>
        Console (SkipNoEmail u) \<in> set (ts_trace (fst (checkAbandonedCarts env db))))"
proof -
  have origin: "\<exists>w first rest usr. (w, first # rest) \<in> set (user_groups env db)
           \<and> lookup_user db w = Some usr \<and> provided (u_email usr) = Some e
           \<and> reminder_text env w e first rest = Inr m
           \<and> (\<forall>jv \<in> set (first # rest). \<exists>x \<in> set (products_viewed db).
                 cutoff_of env \<le> v_timestamp x \<and> v_user_id x = Some w
                 \<and> has_deliverable_user db x \<and> join_view db x = Some jv)"
    if "Console (Generated e m) \<in> set (ts_trace (fst (checkAbandonedCarts env db)))
        \<or> Console (WouldSend e m) \<in> set (ts_trace (fst (checkAbandonedCarts env db)))"
    for e m
  proof -
    from generated_origin [OF that] obtain w first rest where
      g: "(w, first # rest) \<in> set (user_groups env db)"
      and p: "provided (ju_email (jv_users first)) = Some e"
      and r: "reminder_text env w e first rest = Inr m"
      by blast
    from group_of_deliverable_views [OF g p] g r show ?thesis by blast
  qed
  show ?thesis
    apply (intro conjI)
    subgoal by (rule tick_without_undeliverable)
    subgoal using undeliverable_user_untouched [of v db u env] by blast
    subgoal by (rule trace_without_undeliverable)
    subgoal using origin by blast
    subgoal using skip_no_email_logged [of v db env u usr] by blast
    done
qed

text \<open>
  The sample run: the view of the user without email and the anonymous view can be
  removed without any change to the reminders or to the lines that report them, the
  user without email gets none and is logged as skipped, and the text generated comes
  from a group of a user with that email.
\<close>

theorem undeliverable_views_never_contribute_witness:
  "filter (has_deliverable_user sample_database) (products_viewed sample_database) =
     [\<lparr>v_id = lit ''v1'', v_user_id = Some (lit ''u1''), v_product_id = lit ''p1'',
       v_product_name = lit ''Widget'', v_timestamp = 0\<rparr>,
      \<lparr>v_id = lit ''v2'', v_user_id = Some (lit ''u1''), v_product_id = lit ''p2'',
       v_product_name = lit ''Gadget'', v_timestamp = 120000\<rparr>,
      \<lparr>v_id = lit ''v5'', v_user_id = Some (lit ''u3''), v_product_id = lit ''p1'',
       v_product_name = lit ''Widget'', v_timestamp = 1500000\<rparr>]
   \<and> messages_sent (ts_db (fst (checkAbandonedCarts sample_tick_env
         (sample_database\<lparr>products_viewed :=
            filter (has_deliverable_user sample_database) (products_viewed sample_database)\<rparr>)))) =
       messages_sent (ts_db (fst (checkAbandonedCarts sample_tick_env sample_database)))
   \<and> messages_of (lit ''u2'') (ts_db (fst (checkAbandonedCarts sample_tick_env sample_database)))
       = []
   \<and> reminder_lines (ts_trace (fst (checkAbandonedCarts sample_tick_env
         (sample_database\<lparr>products_viewed :=
            filter (has_deliverable_user sample_database) (products_viewed sample_database)\<rparr>)))) =
       reminder_lines (ts_trace (fst (checkAbandonedCarts sample_tick_env sample_database)))
   \<and> (\<exists>w first rest usr.
         (w, first # rest) \<in> set (user_groups sample_tick_env sample_database)
         \<and> lookup_user sample_database w = Some usr
         \<and> provided (u_email usr) = Some (lit ''a@x.com'')
         \<and> reminder_text sample_tick_env w (lit ''a@x.com'') first rest = Inr (lit ''Hi''))
   \<and> Console (SkipNoEmail (lit ''u2''))
       \<in> set (ts_trace (fst (checkAbandonedCarts sample_tick_env sample_database)))"
proof -
  have kept: "filter (has_deliverable_user sample_database) (products_viewed sample_database) =
     [\<lparr>v_id = lit ''v1'', v_user_id = Some (lit ''u1''), v_product_id = lit ''p1'',
       v_product_name = lit ''Widget'', v_timestamp = 0\<rparr>,
      \<lparr>v_id = lit ''v2'', v_user_id = Some (lit ''u1''), v_product_id = lit ''p2'',
       v_product_name = lit ''Gadget'', v_timestamp = 120000\<rparr>,
      \<lparr>v_id = lit ''v5'', v_user_id = Some (lit ''u3''), v_product_id = lit ''p1'',
       v_product_name = lit ''Widget'', v_timestamp = 1500000\<rparr>]"
    by (simp add: has_deliverable_user_def user_has_email_def lookup_user_def provided_def
          sample_database_def lit_def)
  have v3: "\<lparr>v_id = lit ''v3'', v_user_id = Some (lit ''u2''), v_product_id = lit ''p1'',
          v_product_name = lit ''Widget'', v_timestamp = 1000000\<rparr>
        \<in> set (products_viewed sample_database)"
    "\<not> has_deliverable_user sample_database
        \<lparr>v_id = lit ''v3'', v_user_id = Some (lit ''u2''), v_product_id = lit ''p1'',
          v_product_name = lit ''Widget'', v_timestamp = 1000000\<rparr>"
    "lookup_user sample_database (lit ''u2'') =
       Some \<lparr>u_id = lit ''u2'', u_email = None, u_full_name = Some (lit ''Nomail'')\<rparr>"
    "provided (None :: jsstring option) = None"
    by (simp_all add: has_deliverable_user_def user_has_email_def lookup_user_def provided_def
          sample_database_def lit_def)
  have before: "messages_of (lit ''u2'') sample_database = []"
    by (simp add: messages_of_def sample_database_def lit_def)
  have gen: "Console (Generated (lit ''a@x.com'') (lit ''Hi''))
       \<in> set (ts_trace (fst (checkAbandonedCarts sample_tick_env sample_database)))"
    by (rule sample_u1_turn) (simp_all add: sample_envs)
  note run = undeliverable_views_never_contribute
    [where env = sample_tick_env and db = sample_database and keep = "\<lambda>v. False"
       and u = "lit ''u2''"
       and usr = "\<lparr>u_id = lit ''u2'', u_email = None, u_full_name = Some (lit ''Nomail'')\<rparr>"
       and v = "\<lparr>v_id = lit ''v3'', v_user_id = Some (lit ''u2''), v_product_id = lit ''p1'',
          v_product_name = lit ''Widget'', v_timestamp = 1000000\<rparr>"]
  from run [THEN conjunct1]
  have rows: "messages_sent (ts_db (fst (checkAbandonedCarts sample_tick_env
         (sample_database\<lparr>products_viewed :=
            filter (has_deliverable_user sample_database) (products_viewed sample_database)\<rparr>)))) =
       messages_sent (ts_db (fst (checkAbandonedCarts sample_tick_env sample_database)))"
    by simp
  from run [THEN conjunct2, THEN conjunct1] v3 before
  have none: "messages_of (lit ''u2'')
        (ts_db (fst (checkAbandonedCarts sample_tick_env sample_database))) = []"
    by simp
  from run [THEN conjunct2, THEN conjunct2, THEN conjunct1]
  have lines: "reminder_lines (ts_trace (fst (checkAbandonedCarts sample_tick_env
         (sample_database\<lparr>products_viewed :=
            filter (has_deliverable_user sample_database) (products_viewed sample_database)\<rparr>)))) =
       reminder_lines (ts_trace (fst (checkAbandonedCarts sample_tick_env sample_database)))"
    by simp
  from run [THEN conjunct2, THEN conjunct2, THEN conjunct2, THEN conjunct1, rule_format,
      of "lit ''a@x.com''" "lit ''Hi''"] gen
  have origin: "\<exists>w first rest usr.
         (w, first # rest) \<in> set (user_groups sample_tick_env sample_database)
         \<and> lookup_user sample_database w = Some usr
         \<and> provided (u_email usr) = Some (lit ''a@x.com'')
         \<and> reminder_text sample_tick_env w (lit ''a@x.com'') first rest = Inr (lit ''Hi'')"
    by blast
  from run [THEN conjunct2, THEN conjunct2, THEN conjunct2, THEN conjunct2] v3
  have skip: "Console (SkipNoEmail (lit ''u2''))
       \<in> set (ts_trace (fst (checkAbandonedCarts sample_tick_env sample_database)))"
    by (simp add: sample_envs)
  from kept rows none lines origin skip show ?thesis
    by (intro conjI)
qed

end
